theory Spec2Isabelle
  imports Complex_Main "HOL-Library.AList"
begin

section \<open>Values and platform objects\<close>

text \<open>
  The repository holds four variants of one React component, \<open>CameraApp\<close>:
  \<^item> variant 1: \<open>src/src/App.tsx\<close>, first document (lines 1-268);
  \<^item> variant 2: \<open>src/src/App.tsx\<close>, second document (lines 269-949);
  \<^item> variant 3: \<open>src/unnamed/part_000\<close>, first document (lines 1-371);
  \<^item> variant 4: \<open>src/unnamed/part_000\<close>, second document (lines 372-1566).
  A definition that ends in a digit embeds the function of that variant.

  JavaScript values, as far as the component builds and inspects them. A number is
  only ever copied into a request, never computed on. An object is the list of its
  properties in insertion order.
\<close>

datatype jsval =
    Undefined
  | Null
  | Bool bool
  | Num real
  | Str string
  | Arr "jsval list"
  | Obj "(string \<times> jsval) list"
  | Fn string   \<comment> \<open>a function object, by its name\<close>

text \<open>JavaScript truthiness (\<open>x && ...\<close>, \<open>x || ...\<close>, \<open>if (x)\<close>).\<close>

fun truthy :: "jsval \<Rightarrow> bool" where
  "truthy Undefined = False"
| "truthy Null = False"
| "truthy (Bool b) = b"
| "truthy (Num n) = (n \<noteq> 0)"
| "truthy (Str s) = (s \<noteq> [])"
| "truthy (Arr xs) = True"
| "truthy (Obj kvs) = True"
| "truthy (Fn f) = True"

text \<open>
  Property read \<open>v.k\<close> and \<open>v?.k\<close> of an own property: a missing property reads as
  \<open>undefined\<close>, and so does every property of \<open>null\<close> and \<open>undefined\<close> under
  optional chaining. This is the whole read for the names the code writes out
  (\<open>facingMode\<close>, \<open>deviceId\<close>, \<open>ideal\<close>, ...) and for the keys \<open>Object.keys\<close> returns:
  none of the former is a name of \<open>Object.prototype\<close>, and the latter are own.
\<close>

fun get_prop :: "jsval \<Rightarrow> string \<Rightarrow> jsval" where
  "get_prop (Obj kvs) k = (case map_of kvs k of Some v \<Rightarrow> v | None \<Rightarrow> Undefined)"
| "get_prop v k = Undefined"

text \<open>
  Property read \<open>v[k]\<close> with a computed key on a plain object: an own property if
  there is one, and otherwise what \<open>Object.prototype\<close> has under that name, which
  is a function for eleven names and, for \<open>__proto__\<close>, the prototype object
  itself (an object with no own enumerable property).
\<close>

definition object_prototype_functions :: "string list" where
  "object_prototype_functions =
     [''constructor'', ''__defineGetter__'', ''__defineSetter__'', ''hasOwnProperty'',
      ''__lookupGetter__'', ''__lookupSetter__'', ''isPrototypeOf'',
      ''propertyIsEnumerable'', ''toString'', ''valueOf'', ''toLocaleString'']"

fun get_member :: "jsval \<Rightarrow> string \<Rightarrow> jsval" where
  "get_member (Obj kvs) k =
     (case map_of kvs k of
        Some v \<Rightarrow> v
      | None \<Rightarrow>
          (if k \<in> set object_prototype_functions then Fn k
           else if k = ''__proto__'' then Obj []
           else Undefined))"
| "get_member v k = Undefined"

text \<open>\<open>Object.keys(v)\<close> and the \<open>in\<close>-style test whether an object has a key.\<close>

fun object_keys :: "jsval \<Rightarrow> string list" where
  "object_keys (Obj kvs) = map fst kvs"
| "object_keys v = []"

definition has_key :: "jsval \<Rightarrow> string \<Rightarrow> bool" where
  "has_key v k = (k \<in> set (object_keys v))"

text \<open>\<open>Array.isArray(v) ? v : []\<close>.\<close>

fun array_or_empty :: "jsval \<Rightarrow> jsval list" where
  "array_or_empty (Arr xs) = xs"
| "array_or_empty v = []"

text \<open>
  What a \<open>try\<close> block can throw: an instance of \<open>Error\<close> with its \<open>message\<close>
  (\<open>DOMException\<close>, \<open>TypeError\<close> and \<open>ReferenceError\<close> are such instances), or any
  other value.
\<close>

datatype thrown = ErrorInst string | NonError jsval

record resolution_t =
  width :: real
  height :: real

record media_device_info =
  deviceId :: string
  groupId :: string
  kind :: string
  label :: string
  isInputDeviceInfo :: bool
    \<comment> \<open>\<open>deviceInfo instanceof InputDeviceInfo\<close>, where the browser defines \<open>InputDeviceInfo\<close>\<close>
  deviceGetCapabilities :: "thrown + jsval"
    \<comment> \<open>what \<open>deviceInfo.getCapabilities()\<close> returns, or throws (\<open>Inl\<close>)\<close>

record device_detail_info =
  deviceInfo :: media_device_info
  capabilities :: jsval           \<comment> \<open>\<open>Undefined\<close> when the optional field is absent\<close>

record track =
  track_id :: nat
  track_kind :: string
  getCapabilities :: jsval
  getConstraints :: jsval
  getSettings :: jsval

text \<open>
  What \<open>videoRef.current.srcObject\<close> can hold: a \<open>MediaStream\<close> with its tracks, or
  another media provider (\<open>MediaSource\<close>, \<open>Blob\<close>), which
  \<open>stream instanceof MediaStream\<close> tells apart.
\<close>

datatype media_provider = MediaStream "track list" | OtherProvider

record video_element =
  srcObject :: "media_provider option"
  videoWidth :: real
  videoHeight :: real

section \<open>Component state\<close>

text \<open>
  The \<open>useState\<close> cells and the \<open>videoRef\<close> of the component. The variants share most
  cells; a cell that a variant does not declare is never read or written by that
  variant's functions. Cells that only the render code and the change handlers use
  (\<open>actualResolution\<close>, \<open>widthRange\<close>, \<open>heightRange\<close>, \<open>availableFacingModes\<close>,
  \<open>currentCapabilities\<close>, variant 1's \<open>devices\<close>) are left out.
\<close>

record app_state =
  videoRef :: "video_element option"          \<comment> \<open>\<open>videoRef.current\<close>, \<open>None\<close> for \<open>null\<close>\<close>
  resolution :: resolution_t                  \<comment> \<open>variants 1, 2, 3\<close>
  useMaxResolution :: bool
  maxResolution :: resolution_t
  useMinResolution :: bool
  minResolution :: resolution_t
  selectedDevice :: string                    \<comment> \<open>variant 1\<close>
  selectedVideoDevice :: string               \<comment> \<open>variants 2, 3, 4\<close>
  selectedAudioDevice :: string
  facingMode :: string                        \<comment> \<open>variants 2, 3\<close>
  requestedConstraints :: jsval               \<comment> \<open>variant 3\<close>
  trackCorrespondences :: jsval               \<comment> \<open>variants 2, 3, 4\<close>
  error :: string
  videoDevices :: "media_device_info list"
  audioDevices :: "media_device_info list"
  loadingDevices :: bool
  deviceDetails :: "device_detail_info list"  \<comment> \<open>variants 2, 4\<close>
  actualDeviceId :: jsval                     \<comment> \<open>variant 4: \<open>string | null\<close>\<close>
  deviceIdMatch :: "bool option"              \<comment> \<open>variant 4: \<open>boolean | null\<close>\<close>
  customConstraints :: jsval                  \<comment> \<open>variant 4\<close>
  activeConstraintKeys :: "string list"
  useExactDeviceId :: bool
  useExactAudioDeviceId :: bool

section \<open>Constraint construction\<close>

text \<open>
  The object literal \<open>constraints\<close> of \<open>startStream\<close>. A spread \<open>...(c && {k: v})\<close> adds
  the property when \<open>c\<close> is truthy and nothing otherwise; \<open>...(c ? {k: v} : {})\<close>
  likewise. All keys of one literal are distinct, so appending keeps the order of the
  source.
\<close>

text \<open>Variant 1, \<open>src/src/App.tsx\<close> lines 51-68.\<close>

definition constraints1 :: "app_state \<Rightarrow> jsval" where
  "constraints1 st =
     Obj ((if selectedDevice st \<noteq> [] then [(''deviceId'', Obj [(''exact'', Str (selectedDevice st))])] else [])
        @ [(''video'',
            (if useMaxResolution st \<or> useMinResolution st
             then Obj
               [(''width'', Obj ([(''ideal'', Num (width (resolution st)))]
                   @ (if useMaxResolution st then [(''max'', Num (width (maxResolution st)))] else [])
                   @ (if useMinResolution st then [(''min'', Num (width (minResolution st)))] else []))),
                (''height'', Obj ([(''ideal'', Num (height (resolution st)))]
                   @ (if useMaxResolution st then [(''max'', Num (height (maxResolution st)))] else [])
                   @ (if useMinResolution st then [(''min'', Num (height (minResolution st)))] else [])))]
             else Obj [(''width'', Num (width (resolution st))),
                       (''height'', Num (height (resolution st)))]))])"

text \<open>
  Variant 2, \<open>src/src/App.tsx\<close> lines 460-468: \<open>getSelectedDeviceCapabilities\<close>.
  \<open>find\<close> returns the first detail whose device id matches.
\<close>

definition getSelectedDeviceCapabilities :: "app_state \<Rightarrow> jsval" where
  "getSelectedDeviceCapabilities st =
     (if selectedVideoDevice st = [] then Null
      else case find (\<lambda>detail. deviceId (deviceInfo detail) = selectedVideoDevice st)
                     (deviceDetails st) of
             None \<Rightarrow> Null
           | Some selected \<Rightarrow>
               (if truthy (capabilities selected) then capabilities selected else Null))"

text \<open>Variant 2, lines 486-500: \<open>facingModeConstraint\<close>.\<close>

definition facingModeConstraint :: "app_state \<Rightarrow> (string \<times> jsval) list" where
  "facingModeConstraint st =
     (let deviceCapabilities = getSelectedDeviceCapabilities st in
      if facingMode st \<noteq> [] \<and> truthy (get_prop deviceCapabilities ''facingMode'')
      then (let availableFacingModes = array_or_empty (get_prop deviceCapabilities ''facingMode'') in
            if Str (facingMode st) \<in> set availableFacingModes
            then [(''facingMode'', Str (facingMode st))]
            else [])
      else [])"

text \<open>Variant 2, lines 502-526.\<close>

definition constraints2 :: "app_state \<Rightarrow> jsval" where
  "constraints2 st =
     Obj ((if selectedVideoDevice st \<noteq> [] then [(''deviceId'', Obj [(''exact'', Str (selectedVideoDevice st))])] else [])
        @ [(''video'',
            (if useMaxResolution st \<or> useMinResolution st
             then Obj (facingModeConstraint st @
               [(''width'', Obj ([(''ideal'', Num (width (resolution st)))]
                   @ (if useMaxResolution st then [(''max'', Num (width (maxResolution st)))] else [])
                   @ (if useMinResolution st then [(''min'', Num (width (minResolution st)))] else []))),
                (''height'', Obj ([(''ideal'', Num (height (resolution st)))]
                   @ (if useMaxResolution st then [(''max'', Num (height (maxResolution st)))] else [])
                   @ (if useMinResolution st then [(''min'', Num (height (minResolution st)))] else [])))])
             else Obj ([(''width'', Num (width (resolution st))),
                        (''height'', Num (height (resolution st)))]
                       @ facingModeConstraint st)))])"

text \<open>Variant 3, \<open>src/unnamed/part_000\<close> lines 76-100.\<close>

definition constraints3 :: "app_state \<Rightarrow> jsval" where
  "constraints3 st =
     Obj ((if selectedVideoDevice st \<noteq> [] then [(''deviceId'', Obj [(''exact'', Str (selectedVideoDevice st))])] else [])
        @ [(''video'',
            (if useMaxResolution st \<or> useMinResolution st
             then Obj ((if facingMode st \<noteq> [] then [(''facingMode'', Obj [(''exact'', Str (facingMode st))])] else []) @
               [(''width'', Obj ([(''ideal'', Num (width (resolution st)))]
                   @ (if useMaxResolution st then [(''max'', Num (width (maxResolution st)))] else [])
                   @ (if useMinResolution st then [(''min'', Num (width (minResolution st)))] else []))),
                (''height'', Obj ([(''ideal'', Num (height (resolution st)))]
                   @ (if useMaxResolution st then [(''max'', Num (height (maxResolution st)))] else [])
                   @ (if useMinResolution st then [(''min'', Num (height (minResolution st)))] else [])))])
             else Obj ([(''width'', Num (width (resolution st))),
                        (''height'', Num (height (resolution st)))]
                       @ (if facingMode st \<noteq> [] then [(''facingMode'', Obj [(''exact'', Str (facingMode st))])] else []))))])"

text \<open>
  Variant 4, \<open>src/unnamed/part_000\<close> lines 600-604: one round of
  \<open>activeConstraintKeys.forEach\<close>. The read \<open>customConstraints[key]\<close> has a computed
  key, so it sees inherited properties too. The assignment \<open>videoConstraints[key] = v\<close>
  replaces the value of a key the object has and appends the key otherwise, which is
  \<open>AList.update\<close>; for the key \<open>__proto__\<close> it goes to the setter of
  \<open>Object.prototype\<close> and adds no own property.
\<close>

definition copyConstraint :: "jsval \<Rightarrow> (string \<times> jsval) list \<Rightarrow> string \<Rightarrow> (string \<times> jsval) list" where
  "copyConstraint custom vc key =
     (if get_member custom key \<noteq> Undefined
      then (if key = ''__proto__'' then vc else AList.update key (get_member custom key) vc)
      else vc)"

text \<open>Variant 4, \<open>src/unnamed/part_000\<close> lines 588-627: \<open>buildConstraints\<close>.\<close>

definition buildConstraints :: "app_state \<Rightarrow> jsval" where
  "buildConstraints st =
     (let videoConstraints0 =
            (if selectedVideoDevice st \<noteq> []
             then [(''deviceId'',
                    (if useExactDeviceId st
                     then Obj [(''exact'', Str (selectedVideoDevice st))]
                     else Obj [(''ideal'', Str (selectedVideoDevice st))]))]
             else []);
          videoConstraints =
            foldl (copyConstraint (customConstraints st))
                  videoConstraints0 (activeConstraintKeys st);
          audioConstraints =
            (if selectedAudioDevice st \<noteq> []
             then Obj [(''deviceId'',
                    (if useExactAudioDeviceId st
                     then Obj [(''exact'', Str (selectedAudioDevice st))]
                     else Obj [(''ideal'', Str (selectedAudioDevice st))]))]
             else Bool False)
      in Obj [(''video'', (if length videoConstraints > 0 then Obj videoConstraints else Bool True)),
              (''audio'', audioConstraints)])"

text \<open>
  Variant 4, lines 500-510: the keys the effect passes to \<open>setActiveConstraintKeys\<close>
  for the capabilities object of the selected device.
\<close>

definition priorityKeys :: "string list" where
  "priorityKeys = [''width'', ''height'', ''facingMode'']"

definition capabilityKeys :: "jsval \<Rightarrow> string list" where
  "capabilityKeys caps =
     (let keys = filter (\<lambda>key. get_prop caps key \<noteq> Undefined
                              \<and> key \<noteq> ''deviceId'' \<and> key \<noteq> ''groupId'')
                        (object_keys caps)
      in filter (\<lambda>key. key \<in> set keys) priorityKeys
         @ filter (\<lambda>key. key \<notin> set priorityKeys) keys)"

section \<open>Platform, effects and exceptions\<close>

text \<open>
  The browser as the component sees it: whether \<open>navigator.mediaDevices\<close> and
  \<open>navigator.mediaDevices.getUserMedia\<close> are defined, what the two awaited calls
  answer (a rejection is \<open>Inl\<close>), the message of the \<open>TypeError\<close> that calling
  a method of \<open>undefined\<close> throws, whether the global \<open>InputDeviceInfo\<close> is defined,
  and the message of the \<open>ReferenceError\<close> that naming it throws when it is not.
\<close>

record platform =
  mediaDevices_defined :: bool
  getUserMedia_defined :: bool
  getUserMedia :: "jsval \<Rightarrow> thrown + track list"
  enumerateDevices :: "thrown + media_device_info list"
  typeErrorMessage :: string
  InputDeviceInfo_defined :: bool
  referenceErrorMessage :: string

text \<open>
  The effects of a run, in program order: a call of a state setter, the two platform
  calls, \<open>track.stop()\<close> on a track, and the awaited \<open>setTimeout(resolve, ms)\<close>.
\<close>

datatype event =
    is_SetState: SetState string
  | GetUserMedia jsval
  | EnumerateDevices
  | is_TrackStop: TrackStop nat
  | SetTimeout nat

definition call_getUserMedia :: "platform \<Rightarrow> jsval \<Rightarrow> (thrown + track list) \<times> event list" where
  "call_getUserMedia p req =
     (if mediaDevices_defined p \<and> getUserMedia_defined p
      then (getUserMedia p req, [GetUserMedia req])
      else (Inl (ErrorInst (typeErrorMessage p)), []))"

definition call_enumerateDevices :: "platform \<Rightarrow> (thrown + media_device_info list) \<times> event list" where
  "call_enumerateDevices p =
     (if mediaDevices_defined p
      then (enumerateDevices p, [EnumerateDevices])
      else (Inl (ErrorInst (typeErrorMessage p)), []))"

text \<open>
  How an action ends: it returns, or a thrown value leaves it. Either way the state
  and the effects so far stand.
\<close>

datatype outcome =
    is_Returned: Returned (final_state: app_state) (trace_of: "event list")
  | Propagated (thrown_value: thrown) (final_state: app_state) (trace_of: "event list")

text \<open>
  The \<open>catch\<close> clause all variants share:
  \<open>catch (err) { if (err instanceof Error) { setError(err.message); } }\<close>.
  Its argument is how the \<open>try\<close> block ended: with no thrown value, or with one.
\<close>

definition try_catch :: "thrown option \<times> app_state \<times> event list \<Rightarrow> outcome" where
  "try_catch r =
     (case r of
        (None, st, tr) \<Rightarrow> Returned st tr
      | (Some err, st, tr) \<Rightarrow>
          (case err of
             ErrorInst message \<Rightarrow> Returned (st\<lparr>error := message\<rparr>) (tr @ [SetState ''error''])
           | NonError v \<Rightarrow> Returned st tr))"

text \<open>The \<open>finally { setLoadingDevices(false); }\<close> clause of \<open>fetchDevices\<close>.\<close>

fun finally_setLoadingDevices :: "outcome \<Rightarrow> outcome" where
  "finally_setLoadingDevices (Returned st tr) =
     Returned (st\<lparr>loadingDevices := False\<rparr>) (tr @ [SetState ''loadingDevices''])"
| "finally_setLoadingDevices (Propagated err st tr) =
     Propagated err (st\<lparr>loadingDevices := False\<rparr>) (tr @ [SetState ''loadingDevices''])"

section \<open>Stream lifecycle\<close>

text \<open>
  \<open>stopStream\<close> of variants 2 and 3 (\<open>src/src/App.tsx\<close> lines 548-560,
  \<open>src/unnamed/part_000\<close> lines 124-136), which are the same text. The result is the
  returned boolean, the state and the effects.
\<close>

definition stop_tracks :: "media_provider \<Rightarrow> event list" where
  "stop_tracks stream =
     (case stream of
        MediaStream tracks \<Rightarrow> map (\<lambda>track. TrackStop (track_id track)) tracks
      | OtherProvider \<Rightarrow> [])"

definition stopStream :: "app_state \<Rightarrow> bool \<times> app_state \<times> event list" where
  "stopStream st =
     (case videoRef st of
        None \<Rightarrow> (False, st, [])
      | Some el \<Rightarrow>
          (case srcObject el of
             None \<Rightarrow> (False, st, [])
           | Some stream \<Rightarrow>
               (True, st\<lparr>videoRef := Some (el\<lparr>srcObject := None\<rparr>)\<rparr>, stop_tracks stream)))"

text \<open>\<open>stopStream\<close> of variant 4 (\<open>src/unnamed/part_000\<close> lines 681-698).\<close>

definition stopStream4 :: "app_state \<Rightarrow> bool \<times> app_state \<times> event list" where
  "stopStream4 st =
     (case videoRef st of
        None \<Rightarrow> (False, st, [])
      | Some el \<Rightarrow>
          (case srcObject el of
             None \<Rightarrow> (False, st, [])
           | Some stream \<Rightarrow>
               (True,
                st\<lparr>videoRef := Some (el\<lparr>srcObject := None\<rparr>),
                   actualDeviceId := Null, deviceIdMatch := None\<rparr>,
                stop_tracks stream @ [SetState ''actualDeviceId'', SetState ''deviceIdMatch''])))"

text \<open>\<open>if (videoRef.current) { videoRef.current.srcObject = stream; }\<close>\<close>

definition bind_sink :: "track list \<Rightarrow> app_state \<Rightarrow> app_state" where
  "bind_sink tracks st =
     (case videoRef st of
        None \<Rightarrow> st
      | Some el \<Rightarrow> st\<lparr>videoRef := Some (el\<lparr>srcObject := Some (MediaStream tracks)\<rparr>)\<rparr>)"

text \<open>
  One round of the loop \<open>for (const track of stream.getTracks())\<close> of variants 2 and 3:
  \<open>setTrackCorrespondences({capabilities, constraints, settings})\<close>.
\<close>

definition recordTrack :: "app_state \<times> event list \<Rightarrow> track \<Rightarrow> app_state \<times> event list" where
  "recordTrack acc track =
     (case acc of (st, tr) \<Rightarrow>
        (st\<lparr>trackCorrespondences :=
               Obj [(''capabilities'', getCapabilities track),
                    (''constraints'', getConstraints track),
                    (''settings'', getSettings track)]\<rparr>,
         tr @ [SetState ''trackCorrespondences'']))"

text \<open>
  One round of the same loop in variant 4 (lines 647-669). \<open>sel\<close> is
  \<open>selectedVideoDevice\<close> as the running \<open>startStream\<close> closed over it.
\<close>

definition recordTrack4 :: "string \<Rightarrow> app_state \<times> event list \<Rightarrow> track \<Rightarrow> app_state \<times> event list" where
  "recordTrack4 sel acc track =
     (case acc of (st, tr) \<Rightarrow>
        (let settings = getSettings track;
             (st1, tr1) =
               (if track_kind track = ''video''
                then (let trackDeviceId = get_prop settings ''deviceId'' in
                      (st\<lparr>actualDeviceId := (if truthy trackDeviceId then trackDeviceId else Null),
                          deviceIdMatch :=
                            (if sel \<noteq> [] \<and> truthy trackDeviceId
                             then Some (Str sel = trackDeviceId)
                             else None)\<rparr>,
                       tr @ [SetState ''actualDeviceId'', SetState ''deviceIdMatch'']))
                else (st, tr))
         in (st1\<lparr>trackCorrespondences :=
                    Obj [(''capabilities'', getCapabilities track),
                         (''constraints'', getConstraints track),
                         (''settings'', settings)]\<rparr>,
             tr1 @ [SetState ''trackCorrespondences''])))"

text \<open>
  The \<open>try\<close> block of \<open>startStream\<close>, variant 3 (\<open>src/unnamed/part_000\<close> lines 70-116).
  The state cells are read from \<open>st\<close>, the values the call closed over.
\<close>

definition startStream3_try :: "platform \<Rightarrow> app_state \<Rightarrow> thrown option \<times> app_state \<times> event list" where
  "startStream3_try p st =
     (case stopStream st of (stopped, st1, tr1) \<Rightarrow>
        (let tr2 = tr1 @ (if stopped then [SetTimeout 1000] else []);
             constraints = constraints3 st;
             st3 = st1\<lparr>requestedConstraints := constraints\<rparr>;
             tr3 = tr2 @ [SetState ''requestedConstraints'']
         in case call_getUserMedia p constraints of
              (Inl err, trg) \<Rightarrow> (Some err, st3, tr3 @ trg)
            | (Inr tracks, trg) \<Rightarrow>
                (case foldl recordTrack (st3, tr3 @ trg) tracks of
                   (st4, tr4) \<Rightarrow> (None, bind_sink tracks st4, tr4))))"

definition startStream3 :: "platform \<Rightarrow> app_state \<Rightarrow> outcome" where
  "startStream3 p st =
     (if \<not> mediaDevices_defined p \<or> \<not> getUserMedia_defined p
      then Returned (st\<lparr>error := ''getUserMedia is not supported in this browser.''\<rparr>)
                    [SetState ''error'']
      else try_catch (startStream3_try p st))"

text \<open>\<open>startStream\<close>, variant 2 (\<open>src/src/App.tsx\<close> lines 470-546).\<close>

definition startStream2_try :: "platform \<Rightarrow> app_state \<Rightarrow> thrown option \<times> app_state \<times> event list" where
  "startStream2_try p st =
     (case stopStream st of (stopped, st1, tr1) \<Rightarrow>
        (let tr2 = tr1 @ (if stopped then [SetTimeout 1000] else []);
             constraints = constraints2 st
         in case call_getUserMedia p constraints of
              (Inl err, trg) \<Rightarrow> (Some err, st1, tr2 @ trg)
            | (Inr tracks, trg) \<Rightarrow>
                (case foldl recordTrack (st1, tr2 @ trg) tracks of
                   (st4, tr4) \<Rightarrow> (None, bind_sink tracks st4, tr4))))"

definition startStream2 :: "platform \<Rightarrow> app_state \<Rightarrow> outcome" where
  "startStream2 p st =
     (if \<not> mediaDevices_defined p \<or> \<not> getUserMedia_defined p
      then Returned (st\<lparr>error := ''getUserMedia is not supported in this browser.''\<rparr>)
                    [SetState ''error'']
      else try_catch (startStream2_try p st))"

text \<open>\<open>startStream\<close>, variant 4 (\<open>src/unnamed/part_000\<close> lines 629-679).\<close>

definition startStream4_try :: "platform \<Rightarrow> app_state \<Rightarrow> thrown option \<times> app_state \<times> event list" where
  "startStream4_try p st =
     (case stopStream4 st of (stopped, st1, tr1) \<Rightarrow>
        (let tr2 = tr1 @ (if stopped then [SetTimeout 1000] else []);
             constraints = buildConstraints st
         in case call_getUserMedia p constraints of
              (Inl err, trg) \<Rightarrow> (Some err, st1, tr2 @ trg)
            | (Inr tracks, trg) \<Rightarrow>
                (case foldl (recordTrack4 (selectedVideoDevice st)) (st1, tr2 @ trg) tracks of
                   (st4, tr4) \<Rightarrow> (None, bind_sink tracks st4, tr4))))"

definition startStream4 :: "platform \<Rightarrow> app_state \<Rightarrow> outcome" where
  "startStream4 p st =
     (if \<not> mediaDevices_defined p \<or> \<not> getUserMedia_defined p
      then Returned (st\<lparr>error := ''getUserMedia is not supported in this browser.''\<rparr>)
                    [SetState ''error'']
      else try_catch (startStream4_try p st))"

section \<open>Device discovery\<close>

text \<open>The request \<open>{ video: true, audio: true }\<close> of the permission grab.\<close>

definition permission_request :: jsval where
  "permission_request = Obj [(''video'', Bool True), (''audio'', Bool True)]"

text \<open>\<open>fetchDevices\<close>, variant 3 (\<open>src/unnamed/part_000\<close> lines 24-48).\<close>

definition fetchDevices3_try :: "platform \<Rightarrow> app_state \<Rightarrow> thrown option \<times> app_state \<times> event list" where
  "fetchDevices3_try p st =
     (let st1 = st\<lparr>loadingDevices := True\<rparr>;
          tr1 = [SetState ''loadingDevices'']
      in case call_getUserMedia p permission_request of
           (Inl err, trg) \<Rightarrow> (Some err, st1, tr1 @ trg)
         | (Inr tracks, trg) \<Rightarrow>
             (let tr2 = tr1 @ trg @ map (\<lambda>track. TrackStop (track_id track)) tracks
              in case call_enumerateDevices p of
                   (Inl err, tre) \<Rightarrow> (Some err, st1, tr2 @ tre)
                 | (Inr deviceInfos, tre) \<Rightarrow>
                     (None,
                      st1\<lparr>videoDevices := filter (\<lambda>device. kind device = ''videoinput'') deviceInfos,
                          audioDevices := filter (\<lambda>device. kind device = ''audioinput'') deviceInfos\<rparr>,
                      tr2 @ tre @ [SetState ''videoDevices'', SetState ''audioDevices''])))"

definition fetchDevices3 :: "platform \<Rightarrow> app_state \<Rightarrow> outcome" where
  "fetchDevices3 p st = finally_setLoadingDevices (try_catch (fetchDevices3_try p st))"

text \<open>
  Variant 2, \<open>src/src/App.tsx\<close> lines 320-332: \<open>deviceInfos.map(...)\<close>, device by
  device. For each device the callback evaluates \<open>deviceInfo instanceof InputDeviceInfo\<close>,
  which throws a \<open>ReferenceError\<close> where the browser does not define
  \<open>InputDeviceInfo\<close>, and then may call \<open>deviceInfo.getCapabilities()\<close>, which may
  throw. The first throw ends the \<open>map\<close>; with no device the callback never runs.
\<close>

fun collectDetails :: "platform \<Rightarrow> media_device_info list \<Rightarrow> thrown + device_detail_info list" where
  "collectDetails p [] = Inr []"
| "collectDetails p (info # rest) =
     (if \<not> InputDeviceInfo_defined p then Inl (ErrorInst (referenceErrorMessage p))
      else case (if isInputDeviceInfo info then deviceGetCapabilities info else Inr Undefined) of
             Inl err \<Rightarrow> Inl err
           | Inr caps \<Rightarrow>
               (case collectDetails p rest of
                  Inl err \<Rightarrow> Inl err
                | Inr details \<Rightarrow> Inr (\<lparr>deviceInfo = info, capabilities = caps\<rparr> # details)))"

text \<open>
  \<open>fetchDevices\<close>, variant 2 (\<open>src/src/App.tsx\<close> lines 309-353); variant 4 has the same
  text (\<open>src/unnamed/part_000\<close> lines 425-469).
\<close>

definition fetchDevices2_try :: "platform \<Rightarrow> app_state \<Rightarrow> thrown option \<times> app_state \<times> event list" where
  "fetchDevices2_try p st =
     (let st1 = st\<lparr>loadingDevices := True\<rparr>;
          tr1 = [SetState ''loadingDevices'']
      in case call_getUserMedia p permission_request of
           (Inl err, trg) \<Rightarrow> (Some err, st1, tr1 @ trg)
         | (Inr tracks, trg) \<Rightarrow>
             (case call_enumerateDevices p of
                (Inl err, tre) \<Rightarrow> (Some err, st1, tr1 @ trg @ tre)
              | (Inr deviceInfos, tre) \<Rightarrow>
                  (case collectDetails p deviceInfos of
                     Inl err \<Rightarrow> (Some err, st1, tr1 @ trg @ tre)
                   | Inr detailInfos \<Rightarrow>
                       (None,
                        st1\<lparr>deviceDetails := detailInfos,
                            videoDevices := filter (\<lambda>device. kind device = ''videoinput'') deviceInfos,
                            audioDevices := filter (\<lambda>device. kind device = ''audioinput'') deviceInfos\<rparr>,
                        tr1 @ trg @ tre
                          @ map (\<lambda>track. TrackStop (track_id track)) tracks
                          @ [SetState ''deviceDetails'', SetState ''videoDevices'',
                             SetState ''audioDevices'']))))"

definition fetchDevices2 :: "platform \<Rightarrow> app_state \<Rightarrow> outcome" where
  "fetchDevices2 p st = finally_setLoadingDevices (try_catch (fetchDevices2_try p st))"

section \<open>Initial state and example inputs\<close>

text \<open>
  The initial values of the \<open>useState\<close> cells, with the video element mounted and
  nothing bound to it.
\<close>

definition initial_state :: app_state where
  "initial_state =
     \<lparr>videoRef = Some \<lparr>srcObject = None, videoWidth = 0, videoHeight = 0\<rparr>,
      resolution = \<lparr>width = 640, height = 480\<rparr>,
      useMaxResolution = False,
      maxResolution = \<lparr>width = 0, height = 0\<rparr>,
      useMinResolution = False,
      minResolution = \<lparr>width = 0, height = 0\<rparr>,
      selectedDevice = [],
      selectedVideoDevice = [],
      selectedAudioDevice = [],
      facingMode = [],
      requestedConstraints = Obj [],
      trackCorrespondences = Obj [],
      error = [],
      videoDevices = [],
      audioDevices = [],
      loadingDevices = False,
      deviceDetails = [],
      actualDeviceId = Null,
      deviceIdMatch = None,
      customConstraints = Obj [(''width'', Obj [(''ideal'', Num 640)]),
                               (''height'', Obj [(''ideal'', Num 480)])],
      activeConstraintKeys = [],
      useExactDeviceId = True,
      useExactAudioDeviceId = True\<rparr>"

text \<open>A camera, the track a stream of it carries, and a session bound to the sink.\<close>

definition webcam :: media_device_info where
  "webcam = \<lparr>deviceId = ''cam1'', groupId = ''g1'', kind = ''videoinput'',
             label = ''Front camera'', isInputDeviceInfo = True,
             deviceGetCapabilities = Inr (Obj [(''facingMode'', Arr [Str ''user''])])\<rparr>"

definition camera_track :: track where
  "camera_track = \<lparr>track_id = 7, track_kind = ''video'', getCapabilities = Obj [],
                   getConstraints = Obj [],
                   getSettings = Obj [(''deviceId'', Str ''cam1'')]\<rparr>"

definition active_state :: app_state where
  "active_state =
     initial_state\<lparr>videoRef := Some \<lparr>srcObject = Some (MediaStream [camera_track]),
                                      videoWidth = 640, videoHeight = 480\<rparr>,
                   videoDevices := [webcam]\<rparr>"

text \<open>
  The user picked the camera and the facing mode \<open>environment\<close>; the camera advertises
  \<open>user\<close> only.
\<close>

definition facing_state :: app_state where
  "facing_state =
     initial_state\<lparr>selectedVideoDevice := ''cam1'', facingMode := ''environment'',
                   deviceDetails := [\<lparr>deviceInfo = webcam,
                                      capabilities = Obj [(''facingMode'', Arr [Str ''user''])]\<rparr>]\<rparr>"

text \<open>
  Four browsers: one grants every request with the camera's track, one does the same
  but does not define \<open>InputDeviceInfo\<close>, one rejects every request with an \<open>Error\<close>,
  one rejects with a value that is no \<open>Error\<close>.
\<close>

definition granting_platform :: platform where
  "granting_platform =
     \<lparr>mediaDevices_defined = True, getUserMedia_defined = True,
      getUserMedia = (\<lambda>req. Inr [camera_track]),
      enumerateDevices = Inr [webcam],
      typeErrorMessage = ''undefined is not an object'',
      InputDeviceInfo_defined = True,
      referenceErrorMessage = ''InputDeviceInfo is not defined''\<rparr>"

definition bare_platform :: platform where
  "bare_platform =
     \<lparr>mediaDevices_defined = True, getUserMedia_defined = True,
      getUserMedia = (\<lambda>req. Inr [camera_track]),
      enumerateDevices = Inr [webcam],
      typeErrorMessage = ''undefined is not an object'',
      InputDeviceInfo_defined = False,
      referenceErrorMessage = ''InputDeviceInfo is not defined''\<rparr>"

definition denying_platform :: platform where
  "denying_platform =
     \<lparr>mediaDevices_defined = True, getUserMedia_defined = True,
      getUserMedia = (\<lambda>req. Inl (ErrorInst ''Permission denied'')),
      enumerateDevices = Inr [webcam],
      typeErrorMessage = ''undefined is not an object'',
      InputDeviceInfo_defined = True,
      referenceErrorMessage = ''InputDeviceInfo is not defined''\<rparr>"

definition odd_platform :: platform where
  "odd_platform =
     \<lparr>mediaDevices_defined = True, getUserMedia_defined = True,
      getUserMedia = (\<lambda>req. Inl (NonError (Str ''denied''))),
      enumerateDevices = Inr [webcam],
      typeErrorMessage = ''undefined is not an object'',
      InputDeviceInfo_defined = True,
      referenceErrorMessage = ''InputDeviceInfo is not defined''\<rparr>"

section \<open>Vocabulary of the properties\<close>

text \<open>
  A ranged request for one dimension: an object with \<open>ideal\<close>, with \<open>max\<close> exactly
  when the max toggle is on, with \<open>min\<close> exactly when the min toggle is on, and with
  no other key.
\<close>

definition is_ranged :: "jsval \<Rightarrow> real \<Rightarrow> bool \<Rightarrow> real \<Rightarrow> bool \<Rightarrow> real \<Rightarrow> bool" where
  "is_ranged v ideal use_max mx use_min mn =
     (has_key v ''ideal'' \<and> get_prop v ''ideal'' = Num ideal
      \<and> has_key v ''max'' = use_max \<and> (if use_max then get_prop v ''max'' = Num mx else True)
      \<and> has_key v ''min'' = use_min \<and> (if use_min then get_prop v ''min'' = Num mn else True)
      \<and> set (object_keys v) \<subseteq> {''ideal'', ''max'', ''min''})"

text \<open>
  The facing modes the selected device advertises: the \<open>facingMode\<close> array of its
  capabilities, empty when the device has none.
\<close>

definition advertisedFacingModes :: "app_state \<Rightarrow> jsval list" where
  "advertisedFacingModes st =
     array_or_empty (get_prop (getSelectedDeviceCapabilities st) ''facingMode'')"

text \<open>The stream bound to the sink, if any: the session is Active when there is one.\<close>

definition bound_stream :: "app_state \<Rightarrow> media_provider option" where
  "bound_stream st = (case videoRef st of None \<Rightarrow> None | Some el \<Rightarrow> srcObject el)"

text \<open>
  The position of the first occurrence of an effect in a run (the length of the run
  when it does not occur), and the order of the release of the permission stream
  against enumeration and against the publication of the descriptor lists.
\<close>

definition first_pos :: "event \<Rightarrow> event list \<Rightarrow> nat" where
  "first_pos e tr = length (takeWhile (\<lambda>x. x \<noteq> e) tr)"

definition stopped_after_enumeration :: "event list \<Rightarrow> track list \<Rightarrow> bool" where
  "stopped_after_enumeration tr tracks =
     (EnumerateDevices \<in> set tr \<and>
      list_all (\<lambda>t. TrackStop (track_id t) \<in> set tr
                   \<and> first_pos EnumerateDevices tr < first_pos (TrackStop (track_id t)) tr) tracks)"

definition stopped_before_enumeration :: "event list \<Rightarrow> track list \<Rightarrow> bool" where
  "stopped_before_enumeration tr tracks =
     (EnumerateDevices \<in> set tr \<and>
      list_all (\<lambda>t. TrackStop (track_id t) \<in> set tr
                   \<and> first_pos (TrackStop (track_id t)) tr < first_pos EnumerateDevices tr) tracks)"

definition stopped_before_publication :: "event list \<Rightarrow> track list \<Rightarrow> bool" where
  "stopped_before_publication tr tracks =
     list_all (\<lambda>t. TrackStop (track_id t) \<in> set tr
                  \<and> first_pos (TrackStop (track_id t)) tr < first_pos (SetState ''deviceDetails'') tr
                  \<and> first_pos (TrackStop (track_id t)) tr < first_pos (SetState ''videoDevices'') tr
                  \<and> first_pos (TrackStop (track_id t)) tr < first_pos (SetState ''audioDevices'') tr) tracks"

text \<open>A run publishes when it calls one of the three setters of the descriptor lists.\<close>

definition published :: "event list \<Rightarrow> bool" where
  "published tr =
     (SetState ''deviceDetails'' \<in> set tr \<or> SetState ''videoDevices'' \<in> set tr
      \<or> SetState ''audioDevices'' \<in> set tr)"

text \<open>
  The value the first failing platform call of a discovery run throws, if one fails:
  the permission grab, then the enumeration.
\<close>

definition discovery_failure :: "platform \<Rightarrow> thrown option" where
  "discovery_failure p =
     (case fst (call_getUserMedia p permission_request) of
        Inl err \<Rightarrow> Some err
      | Inr tracks \<Rightarrow>
          (case fst (call_enumerateDevices p) of
             Inl err \<Rightarrow> Some err
           | Inr infos \<Rightarrow> None))"

section \<open>Constraint construction: properties\<close>

lemma facingModeConstraint_eq:
  "facingModeConstraint st =
     (if facingMode st \<noteq> [] \<and> Str (facingMode st) \<in> set (advertisedFacingModes st)
      then [(''facingMode'', Str (facingMode st))] else [])"
proof -
  have "truthy v" if "x \<in> set (array_or_empty v)" for x v
    using that by (cases v) simp_all
  then show ?thesis
    by (auto simp add: facingModeConstraint_def advertisedFacingModes_def Let_def)
qed

lemma ranged_object:
  "is_ranged (Obj ([(''ideal'', Num i)]
                @ (if use_max then [(''max'', Num mx)] else [])
                @ (if use_min then [(''min'', Num mn)] else []))) i use_max mx use_min mn"
  by (simp add: is_ranged_def has_key_def)

text \<open>
  C1. With neither bound toggle active, the request of \<open>startStream\<close> holds \<open>width\<close>
  and \<open>height\<close> as plain numbers equal to the chosen resolution, not as range
  objects. This holds in each variant that has the toggles (1, 2 and 3).
\<close>

theorem C1_scalar_resolution:
  assumes "\<not> useMaxResolution st" and "\<not> useMinResolution st"
  shows "get_prop (get_prop (constraints1 st) ''video'') ''width'' = Num (width (resolution st))
       \<and> get_prop (get_prop (constraints1 st) ''video'') ''height'' = Num (height (resolution st))
       \<and> get_prop (get_prop (constraints2 st) ''video'') ''width'' = Num (width (resolution st))
       \<and> get_prop (get_prop (constraints2 st) ''video'') ''height'' = Num (height (resolution st))
       \<and> get_prop (get_prop (constraints3 st) ''video'') ''width'' = Num (width (resolution st))
       \<and> get_prop (get_prop (constraints3 st) ''video'') ''height'' = Num (height (resolution st))"
  using assms by (simp add: constraints1_def constraints2_def constraints3_def)

theorem C1_scalar_resolution_witness:
  "\<not> useMaxResolution (initial_state\<lparr>resolution := \<lparr>width = 1280, height = 720\<rparr>\<rparr>)
   \<and> \<not> useMinResolution (initial_state\<lparr>resolution := \<lparr>width = 1280, height = 720\<rparr>\<rparr>)
   \<and> get_prop (get_prop (constraints3 (initial_state\<lparr>resolution := \<lparr>width = 1280, height = 720\<rparr>\<rparr>))
        ''video'') ''width'' = Num 1280
   \<and> get_prop (get_prop (constraints3 (initial_state\<lparr>resolution := \<lparr>width = 1280, height = 720\<rparr>\<rparr>))
        ''video'') ''height'' = Num 720"
  using C1_scalar_resolution [of "initial_state\<lparr>resolution := \<lparr>width = 1280, height = 720\<rparr>\<rparr>"]
  by (simp add: initial_state_def)

text \<open>
  C2. With at least one bound toggle active, \<open>width\<close> and \<open>height\<close> of the request
  are objects that hold \<open>ideal\<close>, set to the chosen resolution, hold \<open>max\<close>, set to
  the max resolution, exactly when the max toggle is on, hold \<open>min\<close>, set to the min
  resolution, exactly when the min toggle is on, and hold no other key. This holds in
  variants 1, 2 and 3.
\<close>

theorem C2_ranged_resolution:
  assumes "useMaxResolution st \<or> useMinResolution st"
  shows "is_ranged (get_prop (get_prop (constraints1 st) ''video'') ''width'')
           (width (resolution st)) (useMaxResolution st) (width (maxResolution st))
           (useMinResolution st) (width (minResolution st))
       \<and> is_ranged (get_prop (get_prop (constraints1 st) ''video'') ''height'')
           (height (resolution st)) (useMaxResolution st) (height (maxResolution st))
           (useMinResolution st) (height (minResolution st))
       \<and> is_ranged (get_prop (get_prop (constraints2 st) ''video'') ''width'')
           (width (resolution st)) (useMaxResolution st) (width (maxResolution st))
           (useMinResolution st) (width (minResolution st))
       \<and> is_ranged (get_prop (get_prop (constraints2 st) ''video'') ''height'')
           (height (resolution st)) (useMaxResolution st) (height (maxResolution st))
           (useMinResolution st) (height (minResolution st))
       \<and> is_ranged (get_prop (get_prop (constraints3 st) ''video'') ''width'')
           (width (resolution st)) (useMaxResolution st) (width (maxResolution st))
           (useMinResolution st) (width (minResolution st))
       \<and> is_ranged (get_prop (get_prop (constraints3 st) ''video'') ''height'')
           (height (resolution st)) (useMaxResolution st) (height (maxResolution st))
           (useMinResolution st) (height (minResolution st))"
proof -
  let ?w = "Obj ([(''ideal'', Num (width (resolution st)))]
              @ (if useMaxResolution st then [(''max'', Num (width (maxResolution st)))] else [])
              @ (if useMinResolution st then [(''min'', Num (width (minResolution st)))] else []))"
  let ?h = "Obj ([(''ideal'', Num (height (resolution st)))]
              @ (if useMaxResolution st then [(''max'', Num (height (maxResolution st)))] else [])
              @ (if useMinResolution st then [(''min'', Num (height (minResolution st)))] else []))"
  have v1: "get_prop (constraints1 st) ''video'' = Obj [(''width'', ?w), (''height'', ?h)]"
    using assms by (simp add: constraints1_def)
  have v2: "get_prop (constraints2 st) ''video''
              = Obj (facingModeConstraint st @ [(''width'', ?w), (''height'', ?h)])"
    using assms by (simp add: constraints2_def)
  have v3: "get_prop (constraints3 st) ''video''
              = Obj ((if facingMode st \<noteq> []
                      then [(''facingMode'', Obj [(''exact'', Str (facingMode st))])] else [])
                     @ [(''width'', ?w), (''height'', ?h)])"
    using assms by (simp add: constraints3_def)
  have w1: "get_prop (get_prop (constraints1 st) ''video'') ''width'' = ?w"
    and h1: "get_prop (get_prop (constraints1 st) ''video'') ''height'' = ?h"
    unfolding v1 by simp_all
  have w2: "get_prop (get_prop (constraints2 st) ''video'') ''width'' = ?w"
    and h2: "get_prop (get_prop (constraints2 st) ''video'') ''height'' = ?h"
    unfolding v2 facingModeConstraint_eq by simp_all
  have w3: "get_prop (get_prop (constraints3 st) ''video'') ''width'' = ?w"
    and h3: "get_prop (get_prop (constraints3 st) ''video'') ''height'' = ?h"
    unfolding v3 by simp_all
  show ?thesis
    unfolding w1 h1 w2 h2 w3 h3 by (intro conjI ranged_object)
qed

theorem C2_ranged_resolution_witness:
  "useMaxResolution (initial_state\<lparr>useMaxResolution := True,
                                    maxResolution := \<lparr>width = 1920, height = 1080\<rparr>\<rparr>)
   \<and> get_prop (get_prop (get_prop
        (constraints3 (initial_state\<lparr>useMaxResolution := True,
                                      maxResolution := \<lparr>width = 1920, height = 1080\<rparr>\<rparr>))
        ''video'') ''width'') ''max'' = Num 1920
   \<and> \<not> has_key (get_prop (get_prop
        (constraints3 (initial_state\<lparr>useMaxResolution := True,
                                      maxResolution := \<lparr>width = 1920, height = 1080\<rparr>\<rparr>))
        ''video'') ''width'') ''min''"
  using C2_ranged_resolution [of "initial_state\<lparr>useMaxResolution := True,
                                    maxResolution := \<lparr>width = 1920, height = 1080\<rparr>\<rparr>"]
  by (simp add: initial_state_def is_ranged_def)

text \<open>
  C3, as amended. In variant 2 the request holds \<open>facingMode\<close> if and only if the
  selected facing mode is non-empty and is one of the facing modes the selected device
  advertises, and then as the bare value. In variant 3, which keeps no capabilities of
  the devices, the request holds \<open>facingMode\<close> if and only if the selected facing mode
  is non-empty, and then as an exact match.
\<close>

theorem C3_facing_mode:
  "(has_key (get_prop (constraints2 st) ''video'') ''facingMode''
      \<longleftrightarrow> facingMode st \<noteq> [] \<and> Str (facingMode st) \<in> set (advertisedFacingModes st))
   \<and> get_prop (get_prop (constraints2 st) ''video'') ''facingMode''
       = (if facingMode st \<noteq> [] \<and> Str (facingMode st) \<in> set (advertisedFacingModes st)
          then Str (facingMode st) else Undefined)
   \<and> (has_key (get_prop (constraints3 st) ''video'') ''facingMode'' \<longleftrightarrow> facingMode st \<noteq> [])
   \<and> get_prop (get_prop (constraints3 st) ''video'') ''facingMode''
       = (if facingMode st \<noteq> [] then Obj [(''exact'', Str (facingMode st))] else Undefined)"
  by (simp add: constraints2_def constraints3_def facingModeConstraint_eq has_key_def)

text \<open>
  The claim as stated fails in variant 3: the camera advertises \<open>user\<close> only, the user
  selected \<open>environment\<close>, and the request holds \<open>facingMode\<close>.
\<close>

theorem C3_facing_mode_counterexample:
  "\<not> (has_key (get_prop (constraints3 facing_state) ''video'') ''facingMode''
        \<longleftrightarrow> facingMode facing_state \<noteq> []
            \<and> Str (facingMode facing_state) \<in> set (advertisedFacingModes facing_state))"
  by (simp add: constraints3_def facing_state_def initial_state_def has_key_def
        advertisedFacingModes_def getSelectedDeviceCapabilities_def webcam_def)

text \<open>
  C5. In variants 1, 2 and 3 the device id is not inside the video constraints: the
  \<open>video\<close> object never holds \<open>deviceId\<close>, and the exact match sits beside \<open>video\<close> at
  the top of the request, for every state.
\<close>

theorem C5_deviceId_beside_video:
  "\<not> has_key (get_prop (constraints1 st) ''video'') ''deviceId''
   \<and> get_prop (constraints1 st) ''deviceId''
       = (if selectedDevice st \<noteq> [] then Obj [(''exact'', Str (selectedDevice st))] else Undefined)
   \<and> \<not> has_key (get_prop (constraints2 st) ''video'') ''deviceId''
   \<and> get_prop (constraints2 st) ''deviceId''
       = (if selectedVideoDevice st \<noteq> [] then Obj [(''exact'', Str (selectedVideoDevice st))] else Undefined)
   \<and> \<not> has_key (get_prop (constraints3 st) ''video'') ''deviceId''
   \<and> get_prop (constraints3 st) ''deviceId''
       = (if selectedVideoDevice st \<noteq> [] then Obj [(''exact'', Str (selectedVideoDevice st))] else Undefined)"
proof -
  have k1: "\<not> has_key (get_prop (constraints1 st) ''video'') ''deviceId''"
    by (simp add: constraints1_def has_key_def)
  have k2: "\<not> has_key (get_prop (constraints2 st) ''video'') ''deviceId''"
    by (auto simp add: constraints2_def facingModeConstraint_eq has_key_def)
  have k3: "\<not> has_key (get_prop (constraints3 st) ''video'') ''deviceId''"
    by (auto simp add: constraints3_def has_key_def)
  have t1: "get_prop (constraints1 st) ''deviceId''
       = (if selectedDevice st \<noteq> [] then Obj [(''exact'', Str (selectedDevice st))] else Undefined)"
    by (simp add: constraints1_def)
  have t2: "get_prop (constraints2 st) ''deviceId''
       = (if selectedVideoDevice st \<noteq> [] then Obj [(''exact'', Str (selectedVideoDevice st))] else Undefined)"
    by (simp add: constraints2_def)
  have t3: "get_prop (constraints3 st) ''deviceId''
       = (if selectedVideoDevice st \<noteq> [] then Obj [(''exact'', Str (selectedVideoDevice st))] else Undefined)"
    by (simp add: constraints3_def)
  from k1 k2 k3 t1 t2 t3 show ?thesis by blast
qed

text \<open>
  Variant 4 does what the claim says. The keys \<open>setActiveConstraintKeys\<close> receives
  never include \<open>deviceId\<close>, so no custom constraint overwrites the device id that
  \<open>buildConstraints\<close> puts into the video constraints.
\<close>

lemma capabilityKeys_no_deviceId: "''deviceId'' \<notin> set (capabilityKeys caps)"
  by (auto simp add: capabilityKeys_def priorityKeys_def Let_def)

lemma foldl_custom_keeps:
  "k \<notin> set keys \<Longrightarrow> map_of (foldl (copyConstraint cc) vc0 keys) k = map_of vc0 k"
  by (induction keys arbitrary: vc0) (auto simp add: copyConstraint_def update_conv')

lemma foldl_custom_nonempty:
  "vc0 \<noteq> [] \<Longrightarrow> foldl (copyConstraint cc) vc0 keys \<noteq> []"
proof (induction keys arbitrary: vc0)
  case Nil
  then show ?case by simp
next
  case (Cons key keys)
  have "AList.update key v vc0 \<noteq> []" for v
    using Cons.prems by (cases vc0) auto
  then have "copyConstraint cc vc0 key \<noteq> []"
    using Cons.prems by (simp add: copyConstraint_def)
  with Cons.IH show ?case by simp
qed

lemma buildConstraints_deviceId:
  assumes "selectedVideoDevice st \<noteq> []" and "''deviceId'' \<notin> set (activeConstraintKeys st)"
  shows "get_prop (get_prop (buildConstraints st) ''video'') ''deviceId''
           = (if useExactDeviceId st
              then Obj [(''exact'', Str (selectedVideoDevice st))]
              else Obj [(''ideal'', Str (selectedVideoDevice st))])"
  using assms
  by (simp add: buildConstraints_def Let_def foldl_custom_keeps foldl_custom_nonempty)

section \<open>Stream lifecycle: properties\<close>

lemma recordTrack_pair:
  "recordTrack (st, tr) t =
     (st\<lparr>trackCorrespondences :=
           Obj [(''capabilities'', getCapabilities t),
                (''constraints'', getConstraints t),
                (''settings'', getSettings t)]\<rparr>,
      tr @ [SetState ''trackCorrespondences''])"
  by (simp add: recordTrack_def)

lemma foldl_recordTrack_trace:
  "\<exists>more. list_all is_SetState more \<and> snd (foldl recordTrack (st, tr) tracks) = tr @ more"
proof (induction tracks arbitrary: st tr)
  case Nil
  then show ?case by simp
next
  case (Cons t ts)
  from Cons.IH [of "st\<lparr>trackCorrespondences :=
           Obj [(''capabilities'', getCapabilities t),
                (''constraints'', getConstraints t),
                (''settings'', getSettings t)]\<rparr>" "tr @ [SetState ''trackCorrespondences'']"]
  obtain more where m: "list_all is_SetState more"
    "snd (foldl recordTrack (recordTrack (st, tr) t) ts)
       = (tr @ [SetState ''trackCorrespondences'']) @ more"
    by (auto simp add: recordTrack_pair)
  have "list_all is_SetState (SetState ''trackCorrespondences'' # more)"
    using m(1) by simp
  moreover have "snd (foldl recordTrack (st, tr) (t # ts))
                   = tr @ (SetState ''trackCorrespondences'' # more)"
    using m(2) by simp
  ultimately show ?case by blast
qed

lemma recordTrack4_trace:
  "\<exists>st1 tr1. recordTrack4 sel (st, tr) t = (st1, tr @ tr1) \<and> list_all is_SetState tr1"
  by (cases "track_kind t = ''video''") (simp_all add: recordTrack4_def Let_def)

lemma foldl_recordTrack4_trace:
  "\<exists>more. list_all is_SetState more \<and> snd (foldl (recordTrack4 sel) (st, tr) tracks) = tr @ more"
proof (induction tracks arbitrary: st tr)
  case Nil
  then show ?case by simp
next
  case (Cons t ts)
  obtain st1 tr1 where step: "recordTrack4 sel (st, tr) t = (st1, tr @ tr1)"
    and s1: "list_all is_SetState tr1"
    using recordTrack4_trace by blast
  from Cons.IH [of st1 "tr @ tr1"] obtain more where
    m: "list_all is_SetState more"
       "snd (foldl (recordTrack4 sel) (st1, tr @ tr1) ts) = (tr @ tr1) @ more"
    by blast
  have "list_all is_SetState (tr1 @ more)" using s1 m(1) by simp
  moreover have "snd (foldl (recordTrack4 sel) (st, tr) (t # ts)) = tr @ (tr1 @ more)"
    using step m(2) by simp
  ultimately show ?case by blast
qed

lemma stop_tracks_trace: "list_all is_TrackStop (stop_tracks stream)"
  by (cases stream) (simp_all add: stop_tracks_def list_all_iff)

lemma try_catch_trace:
  "\<exists>more. list_all is_SetState more \<and> trace_of (try_catch (r, st, tr)) = tr @ more"
proof (cases r)
  case None
  then show ?thesis by (simp add: try_catch_def)
next
  case (Some err)
  then show ?thesis by (cases err) (simp_all add: try_catch_def)
qed

text \<open>
  The shape of a run of \<open>startStream\<close> that gets past the guard: the effects of the
  stop, the delay when the stop returned true, the effects \<open>before\<close> that precede the
  acquisition, the acquisition, and then state setters only. \<open>body\<close> is the \<open>try\<close>
  block, which ends after the acquisition and some state setters.
\<close>

lemma start_shape:
  assumes body: "\<exists>r st' more. list_all is_SetState more
                   \<and> body = (r, st', (stop_tr @ delay @ before @ [GetUserMedia c]) @ more)"
  shows "\<exists>rest. list_all is_SetState rest
           \<and> trace_of (try_catch body) = stop_tr @ delay @ before @ [GetUserMedia c] @ rest"
proof -
  from body obtain r st' more where more: "list_all is_SetState more"
    and b: "body = (r, st', (stop_tr @ delay @ before @ [GetUserMedia c]) @ more)"
    by blast
  from try_catch_trace [of r st' "(stop_tr @ delay @ before @ [GetUserMedia c]) @ more"]
  obtain more2 where more2: "list_all is_SetState more2"
    and tc: "trace_of (try_catch body)
               = ((stop_tr @ delay @ before @ [GetUserMedia c]) @ more) @ more2"
    unfolding b by blast
  have "list_all is_SetState (more @ more2)" using more more2 by simp
  moreover have "trace_of (try_catch body)
                   = stop_tr @ delay @ before @ [GetUserMedia c] @ (more @ more2)"
    using tc by simp
  ultimately show ?thesis by blast
qed

lemma trace_startStream3:
  assumes "mediaDevices_defined p" and "getUserMedia_defined p"
  shows "\<exists>rest. list_all is_SetState rest
           \<and> trace_of (startStream3 p st)
               = snd (snd (stopStream st))
                 @ (if fst (stopStream st) then [SetTimeout 1000] else [])
                 @ [SetState ''requestedConstraints'']
                 @ [GetUserMedia (constraints3 st)] @ rest"
proof -
  obtain stopped st1 tr1 where stop: "stopStream st = (stopped, st1, tr1)"
    by (cases "stopStream st") auto
  define pre where "pre = (tr1 @ (if stopped then [SetTimeout 1000] else [])
                            @ [SetState ''requestedConstraints''] @ [GetUserMedia (constraints3 st)])"
  have "\<exists>r st' more. list_all is_SetState more \<and> startStream3_try p st = (r, st', pre @ more)"
  proof (cases "getUserMedia p (constraints3 st)")
    case (Inl err)
    with assms stop have "startStream3_try p st
        = (Some err, st1\<lparr>requestedConstraints := constraints3 st\<rparr>, pre @ [])"
      by (simp add: startStream3_try_def call_getUserMedia_def Let_def pre_def)
    moreover have "list_all is_SetState []" by simp
    ultimately show ?thesis by blast
  next
    case (Inr tracks)
    obtain st4 tr4 where fold:
      "foldl recordTrack (st1\<lparr>requestedConstraints := constraints3 st\<rparr>, pre) tracks = (st4, tr4)"
      by (cases "foldl recordTrack (st1\<lparr>requestedConstraints := constraints3 st\<rparr>, pre) tracks") auto
    from foldl_recordTrack_trace [of "st1\<lparr>requestedConstraints := constraints3 st\<rparr>" pre tracks] fold
    obtain more where more: "list_all is_SetState more" "tr4 = pre @ more"
      by auto
    have "startStream3_try p st = (None, bind_sink tracks st4, tr4)"
      using assms stop Inr fold
      by (simp add: startStream3_try_def call_getUserMedia_def Let_def pre_def)
    with more show ?thesis by blast
  qed
  then have "\<exists>rest. list_all is_SetState rest
           \<and> trace_of (try_catch (startStream3_try p st))
               = tr1 @ (if stopped then [SetTimeout 1000] else [])
                 @ [SetState ''requestedConstraints''] @ [GetUserMedia (constraints3 st)] @ rest"
    unfolding pre_def by (rule start_shape)
  then show ?thesis
    using assms stop by (simp add: startStream3_def)
qed

lemma trace_startStream2:
  assumes "mediaDevices_defined p" and "getUserMedia_defined p"
  shows "\<exists>rest. list_all is_SetState rest
           \<and> trace_of (startStream2 p st)
               = snd (snd (stopStream st))
                 @ (if fst (stopStream st) then [SetTimeout 1000] else [])
                 @ []
                 @ [GetUserMedia (constraints2 st)] @ rest"
proof -
  obtain stopped st1 tr1 where stop: "stopStream st = (stopped, st1, tr1)"
    by (cases "stopStream st") auto
  define pre where "pre = (tr1 @ (if stopped then [SetTimeout 1000] else [])
                            @ [] @ [GetUserMedia (constraints2 st)])"
  have "\<exists>r st' more. list_all is_SetState more \<and> startStream2_try p st = (r, st', pre @ more)"
  proof (cases "getUserMedia p (constraints2 st)")
    case (Inl err)
    with assms stop have "startStream2_try p st = (Some err, st1, pre @ [])"
      by (simp add: startStream2_try_def call_getUserMedia_def Let_def pre_def)
    moreover have "list_all is_SetState []" by simp
    ultimately show ?thesis by blast
  next
    case (Inr tracks)
    obtain st4 tr4 where fold: "foldl recordTrack (st1, pre) tracks = (st4, tr4)"
      by (cases "foldl recordTrack (st1, pre) tracks") auto
    from foldl_recordTrack_trace [of st1 pre tracks] fold
    obtain more where more: "list_all is_SetState more" "tr4 = pre @ more"
      by auto
    have "startStream2_try p st = (None, bind_sink tracks st4, tr4)"
      using assms stop Inr fold
      by (simp add: startStream2_try_def call_getUserMedia_def Let_def pre_def)
    with more show ?thesis by blast
  qed
  then have "\<exists>rest. list_all is_SetState rest
           \<and> trace_of (try_catch (startStream2_try p st))
               = tr1 @ (if stopped then [SetTimeout 1000] else [])
                 @ [] @ [GetUserMedia (constraints2 st)] @ rest"
    unfolding pre_def by (rule start_shape)
  then show ?thesis
    using assms stop by (simp add: startStream2_def)
qed

lemma trace_startStream4:
  assumes "mediaDevices_defined p" and "getUserMedia_defined p"
  shows "\<exists>rest. list_all is_SetState rest
           \<and> trace_of (startStream4 p st)
               = snd (snd (stopStream4 st))
                 @ (if fst (stopStream4 st) then [SetTimeout 1000] else [])
                 @ []
                 @ [GetUserMedia (buildConstraints st)] @ rest"
proof -
  obtain stopped st1 tr1 where stop: "stopStream4 st = (stopped, st1, tr1)"
    by (cases "stopStream4 st") auto
  define pre where "pre = (tr1 @ (if stopped then [SetTimeout 1000] else [])
                            @ [] @ [GetUserMedia (buildConstraints st)])"
  have "\<exists>r st' more. list_all is_SetState more \<and> startStream4_try p st = (r, st', pre @ more)"
  proof (cases "getUserMedia p (buildConstraints st)")
    case (Inl err)
    with assms stop have "startStream4_try p st = (Some err, st1, pre @ [])"
      by (simp add: startStream4_try_def call_getUserMedia_def Let_def pre_def)
    moreover have "list_all is_SetState []" by simp
    ultimately show ?thesis by blast
  next
    case (Inr tracks)
    obtain st4 tr4 where fold:
      "foldl (recordTrack4 (selectedVideoDevice st)) (st1, pre) tracks = (st4, tr4)"
      by (cases "foldl (recordTrack4 (selectedVideoDevice st)) (st1, pre) tracks") auto
    from foldl_recordTrack4_trace [of "selectedVideoDevice st" st1 pre tracks] fold
    obtain more where more: "list_all is_SetState more" "tr4 = pre @ more"
      by auto
    have "startStream4_try p st = (None, bind_sink tracks st4, tr4)"
      using assms stop Inr fold
      by (simp add: startStream4_try_def call_getUserMedia_def Let_def pre_def)
    with more show ?thesis by blast
  qed
  then have "\<exists>rest. list_all is_SetState rest
           \<and> trace_of (try_catch (startStream4_try p st))
               = tr1 @ (if stopped then [SetTimeout 1000] else [])
                 @ [] @ [GetUserMedia (buildConstraints st)] @ rest"
    unfolding pre_def by (rule start_shape)
  then show ?thesis
    using assms stop by (simp add: startStream4_def)
qed

lemma stopStream_returns:
  "fst (stopStream st) \<longleftrightarrow> bound_stream st \<noteq> None"
  by (simp add: stopStream_def bound_stream_def split: option.splits)

lemma stopStream4_returns:
  "fst (stopStream4 st) \<longleftrightarrow> bound_stream st \<noteq> None"
  by (simp add: stopStream4_def bound_stream_def split: option.splits)

lemma stopStream_trace:
  "list_all is_TrackStop (snd (snd (stopStream st)))"
  by (simp add: stopStream_def stop_tracks_trace split: option.splits)

lemma stopStream4_trace:
  "list_all (\<lambda>e. is_TrackStop e \<or> is_SetState e) (snd (snd (stopStream4 st)))"
proof -
  have "list_all (\<lambda>e. is_TrackStop e \<or> is_SetState e) (stop_tracks stream)" for stream
    using stop_tracks_trace [of stream] by (simp add: list_all_iff)
  then show ?thesis
    by (simp add: stopStream4_def split: option.splits)
qed

text \<open>
  C4. In every run of \<open>startStream\<close> that gets past the guard (variants 2, 3 and 4),
  the effects come in this order: first all effects of the stop of the prior session;
  then the awaited \<open>setTimeout(resolve, 1000)\<close>, present exactly when the stop
  returned true, which it does exactly when a stream was bound; then the acquisition
  request (in variant 3 right after \<open>setRequestedConstraints\<close>); then state setters
  only. The stop's own effects are \<open>track.stop()\<close> calls (and, in variant 4, state
  setters), so no delay and no acquisition precede its end, and a stop that returned
  false has no effect at all. The delay is the timer the code awaits; the time that
  passes is not part of the model.
\<close>

theorem C4_stop_delay_acquire:
  assumes "mediaDevices_defined p \<and> getUserMedia_defined p"
  shows "(\<exists>rest. list_all is_SetState rest
            \<and> trace_of (startStream2 p st)
                = snd (snd (stopStream st))
                  @ (if fst (stopStream st) then [SetTimeout 1000] else [])
                  @ [GetUserMedia (constraints2 st)] @ rest)
       \<and> (\<exists>rest. list_all is_SetState rest
            \<and> trace_of (startStream3 p st)
                = snd (snd (stopStream st))
                  @ (if fst (stopStream st) then [SetTimeout 1000] else [])
                  @ [SetState ''requestedConstraints'', GetUserMedia (constraints3 st)] @ rest)
       \<and> (\<exists>rest. list_all is_SetState rest
            \<and> trace_of (startStream4 p st)
                = snd (snd (stopStream4 st))
                  @ (if fst (stopStream4 st) then [SetTimeout 1000] else [])
                  @ [GetUserMedia (buildConstraints st)] @ rest)
       \<and> (fst (stopStream st) \<longleftrightarrow> bound_stream st \<noteq> None)
       \<and> (fst (stopStream4 st) \<longleftrightarrow> bound_stream st \<noteq> None)
       \<and> list_all is_TrackStop (snd (snd (stopStream st)))
       \<and> list_all (\<lambda>e. is_TrackStop e \<or> is_SetState e) (snd (snd (stopStream4 st)))
       \<and> (\<not> fst (stopStream st) \<longrightarrow> snd (stopStream st) = (st, []))
       \<and> (\<not> fst (stopStream4 st) \<longrightarrow> snd (stopStream4 st) = (st, []))"
proof -
  from assms have api: "mediaDevices_defined p" "getUserMedia_defined p" by simp_all
  have a: "\<exists>rest. list_all is_SetState rest
            \<and> trace_of (startStream2 p st)
                = snd (snd (stopStream st))
                  @ (if fst (stopStream st) then [SetTimeout 1000] else [])
                  @ [GetUserMedia (constraints2 st)] @ rest"
    using trace_startStream2 [OF api, of st] by simp
  have b: "\<exists>rest. list_all is_SetState rest
            \<and> trace_of (startStream3 p st)
                = snd (snd (stopStream st))
                  @ (if fst (stopStream st) then [SetTimeout 1000] else [])
                  @ [SetState ''requestedConstraints'', GetUserMedia (constraints3 st)] @ rest"
    using trace_startStream3 [OF api, of st] by simp
  have c: "\<exists>rest. list_all is_SetState rest
            \<and> trace_of (startStream4 p st)
                = snd (snd (stopStream4 st))
                  @ (if fst (stopStream4 st) then [SetTimeout 1000] else [])
                  @ [GetUserMedia (buildConstraints st)] @ rest"
    using trace_startStream4 [OF api, of st] by simp
  have d: "\<not> fst (stopStream st) \<longrightarrow> snd (stopStream st) = (st, [])"
    by (simp add: stopStream_def split: option.splits)
  have e: "\<not> fst (stopStream4 st) \<longrightarrow> snd (stopStream4 st) = (st, [])"
    by (simp add: stopStream4_def split: option.splits)
  from a b c d e stopStream_returns [of st] stopStream4_returns [of st]
    stopStream_trace [of st] stopStream4_trace [of st]
  show ?thesis by blast
qed

theorem C4_stop_delay_acquire_witness:
  "mediaDevices_defined granting_platform \<and> getUserMedia_defined granting_platform
   \<and> bound_stream active_state \<noteq> None
   \<and> (\<exists>rest. list_all is_SetState rest
         \<and> trace_of (startStream3 granting_platform active_state)
             = [TrackStop 7, SetTimeout 1000, SetState ''requestedConstraints'',
                GetUserMedia (constraints3 active_state)] @ rest)
   \<and> bound_stream initial_state = None
   \<and> (\<exists>rest. list_all is_SetState rest
         \<and> trace_of (startStream3 granting_platform initial_state)
             = [SetState ''requestedConstraints'',
                GetUserMedia (constraints3 initial_state)] @ rest)"
proof -
  have api: "mediaDevices_defined granting_platform \<and> getUserMedia_defined granting_platform"
    by (simp add: granting_platform_def)
  have s1: "stopStream active_state
              = (True,
                 active_state\<lparr>videoRef := Some \<lparr>srcObject = None, videoWidth = 640, videoHeight = 480\<rparr>\<rparr>,
                 [TrackStop 7])"
    by (simp add: stopStream_def active_state_def stop_tracks_def camera_track_def)
  have s0: "stopStream initial_state = (False, initial_state, [])"
    by (simp add: stopStream_def initial_state_def)
  have b1: "bound_stream active_state \<noteq> None"
    by (simp add: bound_stream_def active_state_def)
  have b0: "bound_stream initial_state = None"
    by (simp add: bound_stream_def initial_state_def)
  from C4_stop_delay_acquire [OF api, of active_state]
       C4_stop_delay_acquire [OF api, of initial_state] api b1 b0
  show ?thesis
    by (simp add: s1 s0)
qed

text \<open>
  C6. \<open>stopStream\<close> of variants 2 and 3: when a \<open>MediaStream\<close> is bound to the sink,
  the first call stops every track of it, in order, unbinds the sink and returns
  true, and a second call right after it returns false, changes no state and has no
  effect. When no stream is bound, a call returns false, changes no state and has no
  effect.
\<close>

theorem C6_stop_twice:
  "(bound_stream st = Some (MediaStream tracks) \<longrightarrow>
      fst (stopStream st) = True
      \<and> snd (snd (stopStream st)) = map (\<lambda>track. TrackStop (track_id track)) tracks
      \<and> bound_stream (fst (snd (stopStream st))) = None
      \<and> stopStream (fst (snd (stopStream st))) = (False, fst (snd (stopStream st)), []))
   \<and> (bound_stream st = None \<longrightarrow> stopStream st = (False, st, []))"
  by (auto simp add: bound_stream_def stopStream_def stop_tracks_def split: option.splits)

theorem C6_stop_twice_witness:
  "bound_stream active_state = Some (MediaStream [camera_track])
   \<and> fst (stopStream active_state) = True
   \<and> snd (snd (stopStream active_state)) = [TrackStop 7]
   \<and> stopStream (fst (snd (stopStream active_state)))
       = (False, fst (snd (stopStream active_state)), [])
   \<and> bound_stream initial_state = None
   \<and> stopStream initial_state = (False, initial_state, [])"
proof -
  have b1: "bound_stream active_state = Some (MediaStream [camera_track])"
    by (simp add: bound_stream_def active_state_def)
  have b0: "bound_stream initial_state = None"
    by (simp add: bound_stream_def initial_state_def)
  from C6_stop_twice [of active_state "[camera_track]"] C6_stop_twice [of initial_state "[]"] b1 b0
  show ?thesis
    by (simp add: camera_track_def)
qed

lemma recordTrack4_videoRef:
  "videoRef (fst (recordTrack4 sel (st, tr) t)) = videoRef st"
  by (simp add: recordTrack4_def Let_def)

lemma recordTrack4_match:
  "deviceIdMatch (fst (recordTrack4 sel (st, tr) t))
     = (if track_kind t = ''video''
        then (if sel \<noteq> [] \<and> truthy (get_prop (getSettings t) ''deviceId'')
              then Some (Str sel = get_prop (getSettings t) ''deviceId'') else None)
        else deviceIdMatch st)"
  by (simp add: recordTrack4_def Let_def)

lemma foldl_recordTrack4_videoRef:
  "videoRef (fst (foldl (recordTrack4 sel) acc tracks)) = videoRef (fst acc)"
proof (induction tracks arbitrary: acc)
  case Nil
  then show ?case by simp
next
  case (Cons t ts)
  obtain st tr where acc: "acc = (st, tr)" by (cases acc)
  show ?case using Cons.IH [of "recordTrack4 sel acc t"]
    by (simp add: acc recordTrack4_videoRef)
qed

lemma foldl_recordTrack4_no_video:
  "list_all (\<lambda>u. track_kind u \<noteq> ''video'') post \<Longrightarrow>
   deviceIdMatch (fst (foldl (recordTrack4 sel) acc post)) = deviceIdMatch (fst acc)"
proof (induction post arbitrary: acc)
  case Nil
  then show ?case by simp
next
  case (Cons t ts)
  obtain st tr where acc: "acc = (st, tr)" by (cases acc)
  from Cons.prems have t: "track_kind t \<noteq> ''video''"
    and ts: "list_all (\<lambda>u. track_kind u \<noteq> ''video'') ts"
    by simp_all
  show ?case using Cons.IH [OF ts, of "recordTrack4 sel acc t"] t
    by (simp add: acc recordTrack4_match)
qed

lemma foldl_recordTrack4_last_video:
  assumes "track_kind t = ''video''" and "list_all (\<lambda>u. track_kind u \<noteq> ''video'') post"
  shows "deviceIdMatch (fst (foldl (recordTrack4 sel) acc (pre @ t # post)))
           = (if sel \<noteq> [] \<and> truthy (get_prop (getSettings t) ''deviceId'')
              then Some (Str sel = get_prop (getSettings t) ''deviceId'') else None)"
proof -
  obtain st tr where mid: "foldl (recordTrack4 sel) acc pre = (st, tr)"
    by (cases "foldl (recordTrack4 sel) acc pre")
  have "deviceIdMatch (fst (foldl (recordTrack4 sel) acc (pre @ t # post)))
          = deviceIdMatch (fst (recordTrack4 sel (st, tr) t))"
    using foldl_recordTrack4_no_video [OF assms(2), of sel "recordTrack4 sel (st, tr) t"] mid
    by simp
  then show ?thesis using assms(1) by (simp add: recordTrack4_match)
qed

lemma bind_sink_match: "deviceIdMatch (bind_sink tracks st) = deviceIdMatch st"
  by (simp add: bind_sink_def split: option.splits)

lemma bind_sink_bound:
  "videoRef st \<noteq> None \<Longrightarrow> bound_stream (bind_sink tracks st) = Some (MediaStream tracks)"
  by (auto simp add: bind_sink_def bound_stream_def)

lemma stopStream4_videoRef:
  "videoRef (fst (snd (stopStream4 st))) = None \<longleftrightarrow> videoRef st = None"
  by (simp add: stopStream4_def split: option.splits)

lemma stopStream4_clears:
  "bound_stream st \<noteq> None \<Longrightarrow>
   fst (stopStream4 st) \<and> deviceIdMatch (fst (snd (stopStream4 st))) = None
     \<and> actualDeviceId (fst (snd (stopStream4 st))) = Null"
  by (auto simp add: bound_stream_def stopStream4_def split: option.splits)

lemma startStream4_success:
  assumes "mediaDevices_defined p" and "getUserMedia_defined p"
    and "getUserMedia p (buildConstraints st) = Inr tracks"
  shows "final_state (startStream4 p st)
           = bind_sink tracks
               (fst (foldl (recordTrack4 (selectedVideoDevice st))
                      (fst (snd (stopStream4 st)),
                       (snd (snd (stopStream4 st))
                          @ (if fst (stopStream4 st) then [SetTimeout 1000] else []))
                        @ [GetUserMedia (buildConstraints st)])
                      tracks))"
proof -
  obtain stopped st1 tr1 where stop: "stopStream4 st = (stopped, st1, tr1)"
    by (cases "stopStream4 st") auto
  obtain st4 tr4 where fold:
    "foldl (recordTrack4 (selectedVideoDevice st))
       (st1, (tr1 @ (if stopped then [SetTimeout 1000] else [])) @ [GetUserMedia (buildConstraints st)])
       tracks = (st4, tr4)"
    by (cases "foldl (recordTrack4 (selectedVideoDevice st))
       (st1, (tr1 @ (if stopped then [SetTimeout 1000] else [])) @ [GetUserMedia (buildConstraints st)])
       tracks") auto
  have "startStream4_try p st = (None, bind_sink tracks st4, tr4)"
    using assms stop fold
    by (simp add: startStream4_try_def call_getUserMedia_def Let_def)
  then have "final_state (startStream4 p st) = bind_sink tracks st4"
    using assms by (simp add: startStream4_def try_catch_def)
  then show ?thesis using stop fold by simp
qed

text \<open>
  C7. Variant 4, after an acquisition that succeeded with a stream whose last video
  track is \<open>t\<close>: the match flag is true exactly when a device is selected and the
  device id in the settings of \<open>t\<close> is that device id; it is false exactly when a
  device is selected and the settings report a device id that differs; it is null
  exactly when no device is selected or the settings report no device id. With the
  sink mounted the stream is then bound, so the next \<open>stopStream\<close> tears the session
  down and sets the flag back to null.
\<close>

theorem C7_device_match:
  assumes api: "mediaDevices_defined p \<and> getUserMedia_defined p"
    and acquired: "getUserMedia p (buildConstraints st) = Inr (pre @ t # post)"
    and video: "track_kind t = ''video''"
    and last: "list_all (\<lambda>u. track_kind u \<noteq> ''video'') post"
  shows "(deviceIdMatch (final_state (startStream4 p st)) = Some True
            \<longleftrightarrow> selectedVideoDevice st \<noteq> []
                \<and> get_prop (getSettings t) ''deviceId'' = Str (selectedVideoDevice st))
       \<and> (deviceIdMatch (final_state (startStream4 p st)) = Some False
            \<longleftrightarrow> selectedVideoDevice st \<noteq> []
                \<and> truthy (get_prop (getSettings t) ''deviceId'')
                \<and> get_prop (getSettings t) ''deviceId'' \<noteq> Str (selectedVideoDevice st))
       \<and> (deviceIdMatch (final_state (startStream4 p st)) = None
            \<longleftrightarrow> selectedVideoDevice st = []
                \<or> \<not> truthy (get_prop (getSettings t) ''deviceId''))
       \<and> (videoRef st \<noteq> None \<longrightarrow>
            fst (stopStream4 (final_state (startStream4 p st)))
            \<and> deviceIdMatch (fst (snd (stopStream4 (final_state (startStream4 p st))))) = None)"
proof -
  let ?acc = "(fst (snd (stopStream4 st)),
               (snd (snd (stopStream4 st))
                  @ (if fst (stopStream4 st) then [SetTimeout 1000] else []))
                @ [GetUserMedia (buildConstraints st)])"
  let ?st4 = "fst (foldl (recordTrack4 (selectedVideoDevice st)) ?acc (pre @ t # post))"
  have fin: "final_state (startStream4 p st) = bind_sink (pre @ t # post) ?st4"
    using startStream4_success [of p st "pre @ t # post"] api acquired by simp
  have m: "deviceIdMatch (final_state (startStream4 p st))
             = (if selectedVideoDevice st \<noteq> [] \<and> truthy (get_prop (getSettings t) ''deviceId'')
                then Some (Str (selectedVideoDevice st) = get_prop (getSettings t) ''deviceId'')
                else None)"
    using foldl_recordTrack4_last_video [OF video last, of "selectedVideoDevice st" ?acc pre]
    by (simp only: fin bind_sink_match)
  have stop: "fst (stopStream4 (final_state (startStream4 p st)))
            \<and> deviceIdMatch (fst (snd (stopStream4 (final_state (startStream4 p st))))) = None"
    if mounted: "videoRef st \<noteq> None"
  proof -
    have "videoRef ?st4 = videoRef (fst (snd (stopStream4 st)))"
      by (simp only: foldl_recordTrack4_videoRef fst_conv)
    with mounted have "videoRef ?st4 \<noteq> None"
      by (simp add: stopStream4_videoRef)
    then have "bound_stream (final_state (startStream4 p st)) \<noteq> None"
      using bind_sink_bound [of ?st4 "pre @ t # post"] by (simp only: fin) simp
    then show ?thesis
      using stopStream4_clears by blast
  qed
  have t1: "deviceIdMatch (final_state (startStream4 p st)) = Some True
            \<longleftrightarrow> selectedVideoDevice st \<noteq> []
                \<and> get_prop (getSettings t) ''deviceId'' = Str (selectedVideoDevice st)"
    unfolding m by auto
  have t2: "deviceIdMatch (final_state (startStream4 p st)) = Some False
            \<longleftrightarrow> selectedVideoDevice st \<noteq> []
                \<and> truthy (get_prop (getSettings t) ''deviceId'')
                \<and> get_prop (getSettings t) ''deviceId'' \<noteq> Str (selectedVideoDevice st)"
    unfolding m by auto
  have t3: "deviceIdMatch (final_state (startStream4 p st)) = None
            \<longleftrightarrow> selectedVideoDevice st = []
                \<or> \<not> truthy (get_prop (getSettings t) ''deviceId'')"
    unfolding m by auto
  from t1 t2 t3 stop show ?thesis by blast
qed

theorem C7_device_match_witness:
  "mediaDevices_defined granting_platform \<and> getUserMedia_defined granting_platform
   \<and> getUserMedia granting_platform (buildConstraints (initial_state\<lparr>selectedVideoDevice := ''cam1''\<rparr>))
       = Inr ([] @ camera_track # [])
   \<and> track_kind camera_track = ''video''
   \<and> deviceIdMatch (final_state (startStream4 granting_platform
                                    (initial_state\<lparr>selectedVideoDevice := ''cam1''\<rparr>))) = Some True
   \<and> deviceIdMatch (final_state (startStream4 granting_platform
                                    (initial_state\<lparr>selectedVideoDevice := ''cam2''\<rparr>))) = Some False
   \<and> deviceIdMatch (final_state (startStream4 granting_platform initial_state)) = None
   \<and> deviceIdMatch (fst (snd (stopStream4 (final_state (startStream4 granting_platform
                                    (initial_state\<lparr>selectedVideoDevice := ''cam1''\<rparr>)))))) = None"
proof -
  have api: "mediaDevices_defined granting_platform \<and> getUserMedia_defined granting_platform"
    by (simp add: granting_platform_def)
  have g: "getUserMedia granting_platform (buildConstraints s) = Inr ([] @ camera_track # [])" for s
    by (simp add: granting_platform_def)
  have v: "track_kind camera_track = ''video''"
    by (simp add: camera_track_def)
  have l: "list_all (\<lambda>u. track_kind u \<noteq> ''video'') []"
    by simp
  from C7_device_match [OF api g v l, of "initial_state\<lparr>selectedVideoDevice := ''cam1''\<rparr>"]
       C7_device_match [OF api g v l, of "initial_state\<lparr>selectedVideoDevice := ''cam2''\<rparr>"]
       C7_device_match [OF api g v l, of initial_state]
       api g v
  show ?thesis
    by (simp add: initial_state_def camera_track_def)
qed

section \<open>Device discovery: properties\<close>

lemma first_pos_append:
  "first_pos e (xs @ ys) = (if e \<in> set xs then first_pos e xs else length xs + first_pos e ys)"
proof (cases "e \<in> set xs")
  case True
  then obtain x where "x \<in> set xs" "\<not> x \<noteq> e" by auto
  then show ?thesis using True by (simp add: first_pos_def takeWhile_append1)
next
  case False
  then have "\<And>x. x \<in> set xs \<Longrightarrow> x \<noteq> e" by auto
  then show ?thesis using False by (simp add: first_pos_def takeWhile_append2)
qed

lemma first_pos_less: "e \<in> set xs \<Longrightarrow> first_pos e xs < length xs"
  by (induction xs) (auto simp add: first_pos_def)

lemma fetchDevices2_trace:
  assumes "mediaDevices_defined p" and "getUserMedia_defined p"
    and "getUserMedia p permission_request = Inr tracks"
    and "enumerateDevices p = Inr infos"
    and "collectDetails p infos = Inr details"
  shows "trace_of (fetchDevices2 p st)
           = [SetState ''loadingDevices'', GetUserMedia permission_request, EnumerateDevices]
             @ map (\<lambda>track. TrackStop (track_id track)) tracks
             @ [SetState ''deviceDetails'', SetState ''videoDevices'', SetState ''audioDevices'',
                SetState ''loadingDevices'']"
  using assms
  by (simp add: fetchDevices2_def fetchDevices2_try_def try_catch_def
        call_getUserMedia_def call_enumerateDevices_def Let_def)

text \<open>
  When the enumeration or the collection of the capabilities throws, variant 2 stops
  no track of the stream it holds and publishes nothing.
\<close>

lemma fetchDevices2_unpublished:
  assumes "mediaDevices_defined p" and "getUserMedia_defined p"
    and "getUserMedia p permission_request = Inr tracks"
    and "enumerateDevices p = Inl err
         \<or> (\<exists>infos. enumerateDevices p = Inr infos \<and> collectDetails p infos = Inl err)"
  shows "trace_of (fetchDevices2 p st)
           = [SetState ''loadingDevices'', GetUserMedia permission_request, EnumerateDevices]
             @ (case err of ErrorInst m \<Rightarrow> [SetState ''error''] | NonError v \<Rightarrow> [])
             @ [SetState ''loadingDevices'']"
proof -
  have "fetchDevices2_try p st
          = (Some err, st\<lparr>loadingDevices := True\<rparr>,
             [SetState ''loadingDevices'', GetUserMedia permission_request, EnumerateDevices])"
    using assms
    by (auto simp add: fetchDevices2_try_def call_getUserMedia_def call_enumerateDevices_def Let_def)
  then show ?thesis
    by (cases err) (simp_all add: fetchDevices2_def try_catch_def)
qed

text \<open>
  Such a run: the grab and the enumeration succeed, the browser does not define
  \<open>InputDeviceInfo\<close>, and the run ends with the error set and the track not stopped.
\<close>

lemma fetchDevices2_bare_run:
  "trace_of (fetchDevices2 bare_platform initial_state)
     = [SetState ''loadingDevices'', GetUserMedia permission_request, EnumerateDevices,
        SetState ''error'', SetState ''loadingDevices'']
   \<and> error (final_state (fetchDevices2 bare_platform initial_state))
       = ''InputDeviceInfo is not defined''"
  by (simp add: fetchDevices2_def fetchDevices2_try_def try_catch_def call_getUserMedia_def
        call_enumerateDevices_def Let_def bare_platform_def webcam_def)

lemma fetchDevices3_trace:
  assumes "mediaDevices_defined p" and "getUserMedia_defined p"
    and "getUserMedia p permission_request = Inr tracks"
    and "enumerateDevices p = Inr infos"
  shows "trace_of (fetchDevices3 p st)
           = [SetState ''loadingDevices'', GetUserMedia permission_request]
             @ map (\<lambda>track. TrackStop (track_id track)) tracks
             @ [EnumerateDevices, SetState ''videoDevices'', SetState ''audioDevices'',
                SetState ''loadingDevices'']"
  using assms
  by (simp add: fetchDevices3_def fetchDevices3_try_def try_catch_def
        call_getUserMedia_def call_enumerateDevices_def Let_def)

lemma fetchDevices3_trace_rejected:
  assumes "mediaDevices_defined p" and "getUserMedia_defined p"
    and "getUserMedia p permission_request = Inr tracks"
    and "enumerateDevices p = Inl err"
  shows "trace_of (fetchDevices3 p st)
           = [SetState ''loadingDevices'', GetUserMedia permission_request]
             @ map (\<lambda>track. TrackStop (track_id track)) tracks
             @ [EnumerateDevices]
             @ (case err of ErrorInst m \<Rightarrow> [SetState ''error''] | NonError v \<Rightarrow> [])
             @ [SetState ''loadingDevices'']"
proof -
  have "fetchDevices3_try p st
          = (Some err, st\<lparr>loadingDevices := True\<rparr>,
             [SetState ''loadingDevices'', GetUserMedia permission_request]
               @ map (\<lambda>track. TrackStop (track_id track)) tracks @ [EnumerateDevices])"
    using assms
    by (simp add: fetchDevices3_try_def call_getUserMedia_def call_enumerateDevices_def Let_def)
  then show ?thesis
    by (cases err) (simp_all add: fetchDevices3_def try_catch_def)
qed

lemma fetchDevices3_trace_any:
  assumes "mediaDevices_defined p" and "getUserMedia_defined p"
    and "getUserMedia p permission_request = Inr tracks"
  shows "\<exists>rest. list_all is_SetState rest
           \<and> (SetState ''deviceDetails'' \<notin> set rest)
           \<and> (SetState ''videoDevices'' \<in> set rest \<longleftrightarrow> (\<exists>infos. enumerateDevices p = Inr infos))
           \<and> (SetState ''audioDevices'' \<in> set rest \<longleftrightarrow> (\<exists>infos. enumerateDevices p = Inr infos))
           \<and> trace_of (fetchDevices3 p st)
               = [SetState ''loadingDevices'', GetUserMedia permission_request]
                 @ map (\<lambda>track. TrackStop (track_id track)) tracks
                 @ [EnumerateDevices] @ rest"
proof (cases "enumerateDevices p")
  case (Inl err)
  let ?rest = "(case err of ErrorInst m \<Rightarrow> [SetState ''error''] | NonError v \<Rightarrow> [])
                 @ [SetState ''loadingDevices'']"
  have "list_all is_SetState ?rest"
    and "SetState ''deviceDetails'' \<notin> set ?rest"
    and "SetState ''videoDevices'' \<notin> set ?rest"
    and "SetState ''audioDevices'' \<notin> set ?rest"
    by (cases err; simp)+
  moreover have "trace_of (fetchDevices3 p st)
               = [SetState ''loadingDevices'', GetUserMedia permission_request]
                 @ map (\<lambda>track. TrackStop (track_id track)) tracks
                 @ [EnumerateDevices] @ ?rest"
    using fetchDevices3_trace_rejected [OF assms Inl, of st] by simp
  ultimately show ?thesis using Inl by (intro exI [of _ ?rest]) simp
next
  case (Inr infos)
  let ?rest = "[SetState ''videoDevices'', SetState ''audioDevices'', SetState ''loadingDevices'']"
  have "trace_of (fetchDevices3 p st)
               = [SetState ''loadingDevices'', GetUserMedia permission_request]
                 @ map (\<lambda>track. TrackStop (track_id track)) tracks
                 @ [EnumerateDevices] @ ?rest"
    using fetchDevices3_trace [OF assms Inr, of st] by simp
  then show ?thesis using Inr by (intro exI [of _ ?rest]) simp
qed

lemma pos_in_stops:
  assumes "t \<in> set tracks" and "TrackStop (track_id t) \<notin> set A"
  shows "first_pos (TrackStop (track_id t)) (A @ map (\<lambda>track. TrackStop (track_id track)) tracks @ B)
           < length A + length tracks"
    and "length A \<le> first_pos (TrackStop (track_id t)) (A @ map (\<lambda>track. TrackStop (track_id track)) tracks @ B)"
proof -
  let ?stops = "map (\<lambda>track. TrackStop (track_id track)) tracks"
  have mem: "TrackStop (track_id t) \<in> set ?stops" using assms(1) by auto
  have "first_pos (TrackStop (track_id t)) (A @ ?stops @ B)
          = length A + first_pos (TrackStop (track_id t)) ?stops"
    using assms(2) mem by (simp add: first_pos_append)
  moreover have "first_pos (TrackStop (track_id t)) ?stops < length tracks"
    using first_pos_less [OF mem] by simp
  ultimately show "first_pos (TrackStop (track_id t)) (A @ ?stops @ B) < length A + length tracks"
    and "length A \<le> first_pos (TrackStop (track_id t)) (A @ ?stops @ B)"
    by simp_all
qed

lemma pos_after_stops:
  assumes "\<not> is_TrackStop e" and "e \<notin> set A"
  shows "length A + length tracks
           \<le> first_pos e (A @ map (\<lambda>track. TrackStop (track_id track)) tracks @ B)"
proof -
  have "e \<notin> set (map (\<lambda>track. TrackStop (track_id track)) tracks)"
    using assms(1) by auto
  then show ?thesis using assms(2) by (simp add: first_pos_append)
qed

lemma fetchDevices2_published:
  assumes "mediaDevices_defined p" and "getUserMedia_defined p"
    and "getUserMedia p permission_request = Inr tracks"
  shows "published (trace_of (fetchDevices2 p st))
           \<longleftrightarrow> (\<exists>infos details. enumerateDevices p = Inr infos \<and> collectDetails p infos = Inr details)"
proof (cases "enumerateDevices p")
  case (Inl err)
  have "\<not> published (trace_of (fetchDevices2 p st))"
    using fetchDevices2_unpublished [OF assms, of err st] Inl
    by (cases err) (simp_all add: published_def)
  then show ?thesis using Inl by simp
next
  case (Inr infos)
  show ?thesis
  proof (cases "collectDetails p infos")
    case (Inl err)
    have "\<not> published (trace_of (fetchDevices2 p st))"
      using fetchDevices2_unpublished [OF assms, of err st] Inr Inl
      by (cases err) (simp_all add: published_def)
    then show ?thesis using Inr Inl by simp
  next
    case (Inr details)
    have "published (trace_of (fetchDevices2 p st))"
      using fetchDevices2_trace [OF assms \<open>enumerateDevices p = Inr infos\<close> Inr, of st]
      by (simp add: published_def)
    then show ?thesis using \<open>enumerateDevices p = Inr infos\<close> Inr by simp
  qed
qed

lemma fetchDevices2_order:
  assumes "mediaDevices_defined p" and "getUserMedia_defined p"
    and "getUserMedia p permission_request = Inr tracks"
    and "enumerateDevices p = Inr infos"
    and "collectDetails p infos = Inr details"
  shows "stopped_after_enumeration (trace_of (fetchDevices2 p st)) tracks"
    and "stopped_before_publication (trace_of (fetchDevices2 p st)) tracks"
proof -
  let ?A2 = "[SetState ''loadingDevices'', GetUserMedia permission_request, EnumerateDevices]"
  let ?B2 = "[SetState ''deviceDetails'', SetState ''videoDevices'', SetState ''audioDevices'',
              SetState ''loadingDevices'']"
  let ?stops = "map (\<lambda>track. TrackStop (track_id track)) tracks"
  have tr2: "trace_of (fetchDevices2 p st) = ?A2 @ ?stops @ ?B2"
    using fetchDevices2_trace [OF assms, of st] by simp
  have e2: "first_pos EnumerateDevices (?A2 @ ?stops @ ?B2) = 2"
    by (simp add: first_pos_def)
  have p2: "3 + length tracks \<le> first_pos (SetState name) (?A2 @ ?stops @ ?B2)"
    if "name \<noteq> ''loadingDevices''" for name
    using pos_after_stops [of "SetState name" ?A2 tracks ?B2] that by simp
  have s2: "first_pos (TrackStop (track_id t)) (?A2 @ ?stops @ ?B2) < 3 + length tracks
          \<and> 3 \<le> first_pos (TrackStop (track_id t)) (?A2 @ ?stops @ ?B2)
          \<and> TrackStop (track_id t) \<in> set (?A2 @ ?stops @ ?B2)"
    if "t \<in> set tracks" for t
    using pos_in_stops [of t tracks ?A2 ?B2] that by simp
  show "stopped_before_publication (trace_of (fetchDevices2 p st)) tracks"
    unfolding tr2 stopped_before_publication_def list_all_iff
  proof
    fix t assume t: "t \<in> set tracks"
    from p2 [of "''deviceDetails''"] p2 [of "''videoDevices''"] p2 [of "''audioDevices''"] s2 [OF t]
    show "TrackStop (track_id t) \<in> set (?A2 @ ?stops @ ?B2)
        \<and> first_pos (TrackStop (track_id t)) (?A2 @ ?stops @ ?B2) < first_pos (SetState ''deviceDetails'') (?A2 @ ?stops @ ?B2)
        \<and> first_pos (TrackStop (track_id t)) (?A2 @ ?stops @ ?B2) < first_pos (SetState ''videoDevices'') (?A2 @ ?stops @ ?B2)
        \<and> first_pos (TrackStop (track_id t)) (?A2 @ ?stops @ ?B2) < first_pos (SetState ''audioDevices'') (?A2 @ ?stops @ ?B2)"
      by simp
  qed
  show "stopped_after_enumeration (trace_of (fetchDevices2 p st)) tracks"
    unfolding tr2 stopped_after_enumeration_def list_all_iff
  proof
    show "EnumerateDevices \<in> set (?A2 @ ?stops @ ?B2)" by simp
    show "\<forall>t\<in>set tracks. TrackStop (track_id t) \<in> set (?A2 @ ?stops @ ?B2)
        \<and> first_pos EnumerateDevices (?A2 @ ?stops @ ?B2) < first_pos (TrackStop (track_id t)) (?A2 @ ?stops @ ?B2)"
    proof
      fix t assume t: "t \<in> set tracks"
      from s2 [OF t] e2
      show "TrackStop (track_id t) \<in> set (?A2 @ ?stops @ ?B2)
        \<and> first_pos EnumerateDevices (?A2 @ ?stops @ ?B2) < first_pos (TrackStop (track_id t)) (?A2 @ ?stops @ ?B2)"
        by simp
    qed
  qed
qed

lemma fetchDevices3_order:
  assumes "mediaDevices_defined p" and "getUserMedia_defined p"
    and "getUserMedia p permission_request = Inr tracks"
  shows "stopped_before_enumeration (trace_of (fetchDevices3 p st)) tracks"
    and "stopped_before_publication (trace_of (fetchDevices3 p st)) tracks"
    and "published (trace_of (fetchDevices3 p st)) \<longleftrightarrow> (\<exists>infos. enumerateDevices p = Inr infos)"
proof -
  let ?A3 = "[SetState ''loadingDevices'', GetUserMedia permission_request]"
  let ?stops = "map (\<lambda>track. TrackStop (track_id track)) tracks"
  from fetchDevices3_trace_any [OF assms, of st] obtain rest where
    rest: "list_all is_SetState rest" "SetState ''deviceDetails'' \<notin> set rest"
      "SetState ''videoDevices'' \<in> set rest \<longleftrightarrow> (\<exists>infos. enumerateDevices p = Inr infos)"
      "SetState ''audioDevices'' \<in> set rest \<longleftrightarrow> (\<exists>infos. enumerateDevices p = Inr infos)"
    and tr3: "trace_of (fetchDevices3 p st) = ?A3 @ ?stops @ (EnumerateDevices # rest)"
    by auto
  have p3: "2 + length tracks \<le> first_pos e (?A3 @ ?stops @ (EnumerateDevices # rest))"
    if "\<not> is_TrackStop e" "e \<noteq> SetState ''loadingDevices''" "e \<noteq> GetUserMedia permission_request" for e
    using pos_after_stops [of e ?A3 tracks "EnumerateDevices # rest"] that by simp
  have s3: "first_pos (TrackStop (track_id t)) (?A3 @ ?stops @ (EnumerateDevices # rest)) < 2 + length tracks
          \<and> TrackStop (track_id t) \<in> set (?A3 @ ?stops @ (EnumerateDevices # rest))"
    if "t \<in> set tracks" for t
    using pos_in_stops [of t tracks ?A3 "EnumerateDevices # rest"] that by simp
  show "stopped_before_publication (trace_of (fetchDevices3 p st)) tracks"
    unfolding tr3 stopped_before_publication_def list_all_iff
  proof
    fix t assume t: "t \<in> set tracks"
    from p3 [of "SetState ''deviceDetails''"] p3 [of "SetState ''videoDevices''"]
      p3 [of "SetState ''audioDevices''"] s3 [OF t]
    show "TrackStop (track_id t) \<in> set (?A3 @ ?stops @ (EnumerateDevices # rest))
        \<and> first_pos (TrackStop (track_id t)) (?A3 @ ?stops @ (EnumerateDevices # rest))
            < first_pos (SetState ''deviceDetails'') (?A3 @ ?stops @ (EnumerateDevices # rest))
        \<and> first_pos (TrackStop (track_id t)) (?A3 @ ?stops @ (EnumerateDevices # rest))
            < first_pos (SetState ''videoDevices'') (?A3 @ ?stops @ (EnumerateDevices # rest))
        \<and> first_pos (TrackStop (track_id t)) (?A3 @ ?stops @ (EnumerateDevices # rest))
            < first_pos (SetState ''audioDevices'') (?A3 @ ?stops @ (EnumerateDevices # rest))"
      by (simp add: permission_request_def)
  qed
  show "stopped_before_enumeration (trace_of (fetchDevices3 p st)) tracks"
    unfolding tr3 stopped_before_enumeration_def list_all_iff
  proof
    show "EnumerateDevices \<in> set (?A3 @ ?stops @ (EnumerateDevices # rest))" by simp
    show "\<forall>t\<in>set tracks. TrackStop (track_id t) \<in> set (?A3 @ ?stops @ (EnumerateDevices # rest))
        \<and> first_pos (TrackStop (track_id t)) (?A3 @ ?stops @ (EnumerateDevices # rest))
            < first_pos EnumerateDevices (?A3 @ ?stops @ (EnumerateDevices # rest))"
    proof
      fix t assume t: "t \<in> set tracks"
      from s3 [OF t] p3 [of EnumerateDevices]
      show "TrackStop (track_id t) \<in> set (?A3 @ ?stops @ (EnumerateDevices # rest))
        \<and> first_pos (TrackStop (track_id t)) (?A3 @ ?stops @ (EnumerateDevices # rest))
            < first_pos EnumerateDevices (?A3 @ ?stops @ (EnumerateDevices # rest))"
        by simp
    qed
  qed
  show "published (trace_of (fetchDevices3 p st)) \<longleftrightarrow> (\<exists>infos. enumerateDevices p = Inr infos)"
    unfolding tr3 published_def using rest by auto
qed

text \<open>
  C8, as amended. In every discovery run in which the permission grab succeeds:
  variant 3 stops every track of the permission stream right after the grab, before
  it requests the enumeration and before any descriptor list is published, whether
  the enumeration then succeeds or not; in variant 2 (and variant 4, which has the
  same text), whenever a descriptor list is published, every track has been stopped
  after the enumeration and before the publication. Variant 3 publishes exactly when
  the enumeration succeeds, variant 2 exactly when the enumeration and the collection
  of the capabilities both complete.
\<close>

theorem C8_release_order:
  assumes api: "mediaDevices_defined p \<and> getUserMedia_defined p"
    and granted: "getUserMedia p permission_request = Inr tracks"
  shows "stopped_before_enumeration (trace_of (fetchDevices3 p st)) tracks
       \<and> stopped_before_publication (trace_of (fetchDevices3 p st)) tracks
       \<and> (published (trace_of (fetchDevices3 p st))
            \<longleftrightarrow> (\<exists>infos. enumerateDevices p = Inr infos))
       \<and> (published (trace_of (fetchDevices2 p st)) \<longrightarrow>
            stopped_after_enumeration (trace_of (fetchDevices2 p st)) tracks
            \<and> stopped_before_publication (trace_of (fetchDevices2 p st)) tracks)
       \<and> (published (trace_of (fetchDevices2 p st))
            \<longleftrightarrow> (\<exists>infos details. enumerateDevices p = Inr infos
                                   \<and> collectDetails p infos = Inr details))"
proof -
  from api have a: "mediaDevices_defined p" "getUserMedia_defined p" by simp_all
  have pub2: "published (trace_of (fetchDevices2 p st))
            \<longleftrightarrow> (\<exists>infos details. enumerateDevices p = Inr infos
                                   \<and> collectDetails p infos = Inr details)"
    by (rule fetchDevices2_published [OF a granted])
  have ord2: "published (trace_of (fetchDevices2 p st)) \<longrightarrow>
            stopped_after_enumeration (trace_of (fetchDevices2 p st)) tracks
            \<and> stopped_before_publication (trace_of (fetchDevices2 p st)) tracks"
  proof
    assume "published (trace_of (fetchDevices2 p st))"
    with pub2 obtain infos details where
      "enumerateDevices p = Inr infos" "collectDetails p infos = Inr details"
      by blast
    then show "stopped_after_enumeration (trace_of (fetchDevices2 p st)) tracks
            \<and> stopped_before_publication (trace_of (fetchDevices2 p st)) tracks"
      using fetchDevices2_order [OF a granted] by blast
  qed
  from fetchDevices3_order [OF a granted, of st] pub2 ord2 show ?thesis by blast
qed

theorem C8_release_order_witness:
  "mediaDevices_defined granting_platform \<and> getUserMedia_defined granting_platform
   \<and> getUserMedia granting_platform permission_request = Inr [camera_track]
   \<and> stopped_before_enumeration (trace_of (fetchDevices3 granting_platform initial_state)) [camera_track]
   \<and> stopped_before_publication (trace_of (fetchDevices3 granting_platform initial_state)) [camera_track]
   \<and> published (trace_of (fetchDevices2 granting_platform initial_state))
   \<and> stopped_after_enumeration (trace_of (fetchDevices2 granting_platform initial_state)) [camera_track]
   \<and> stopped_before_publication (trace_of (fetchDevices2 granting_platform initial_state)) [camera_track]
   \<and> \<not> published (trace_of (fetchDevices2 bare_platform initial_state))"
proof -
  have api: "mediaDevices_defined granting_platform \<and> getUserMedia_defined granting_platform"
    "mediaDevices_defined bare_platform \<and> getUserMedia_defined bare_platform"
    by (simp_all add: granting_platform_def bare_platform_def)
  have g: "getUserMedia granting_platform permission_request = Inr [camera_track]"
    "getUserMedia bare_platform permission_request = Inr [camera_track]"
    by (simp_all add: granting_platform_def bare_platform_def)
  have e: "\<exists>infos details. enumerateDevices granting_platform = Inr infos
                           \<and> collectDetails granting_platform infos = Inr details"
    by (simp add: granting_platform_def webcam_def)
  have b: "\<not> (\<exists>infos details. enumerateDevices bare_platform = Inr infos
                           \<and> collectDetails bare_platform infos = Inr details)"
    by (simp add: bare_platform_def)
  from C8_release_order [OF api(1) g(1), of initial_state]
       C8_release_order [OF api(2) g(2), of initial_state] api(1) g(1) e b
  show ?thesis by blast
qed

text \<open>
  The claim as stated fails in variant 3: the one track of the permission stream is
  stopped at position 2 of the run and the enumeration is requested at position 3.
\<close>

theorem C8_release_order_counterexample:
  "getUserMedia granting_platform permission_request = Inr [camera_track]
   \<and> enumerateDevices granting_platform = Inr [webcam]
   \<and> trace_of (fetchDevices3 granting_platform initial_state)
       = [SetState ''loadingDevices'', GetUserMedia permission_request, TrackStop 7,
          EnumerateDevices, SetState ''videoDevices'', SetState ''audioDevices'',
          SetState ''loadingDevices'']
   \<and> \<not> stopped_after_enumeration (trace_of (fetchDevices3 granting_platform initial_state))
         [camera_track]"
proof -
  have api: "mediaDevices_defined granting_platform" "getUserMedia_defined granting_platform"
    by (simp_all add: granting_platform_def)
  have g: "getUserMedia granting_platform permission_request = Inr [camera_track]"
    by (simp add: granting_platform_def)
  have e: "enumerateDevices granting_platform = Inr [webcam]"
    by (simp add: granting_platform_def)
  have tr: "trace_of (fetchDevices3 granting_platform initial_state)
       = [SetState ''loadingDevices'', GetUserMedia permission_request, TrackStop 7,
          EnumerateDevices, SetState ''videoDevices'', SetState ''audioDevices'',
          SetState ''loadingDevices'']"
    using fetchDevices3_trace [OF api g e, of initial_state] by (simp add: camera_track_def)
  have "\<not> stopped_after_enumeration (trace_of (fetchDevices3 granting_platform initial_state))
         [camera_track]"
    unfolding tr by (simp add: stopped_after_enumeration_def first_pos_def camera_track_def)
  with g e tr show ?thesis by blast
qed

lemma try_catch_returned: "is_Returned (try_catch r)"
  by (cases r) (auto simp add: try_catch_def split: option.splits thrown.splits)

lemma finally_returned: "is_Returned (finally_setLoadingDevices r) = is_Returned r"
  by (cases r) simp_all

lemma fetchDevices2_try_failure:
  assumes "discovery_failure p = Some err"
  shows "\<exists>tr. fetchDevices2_try p st = (Some err, st\<lparr>loadingDevices := True\<rparr>, tr)"
  using assms
  by (auto simp add: discovery_failure_def fetchDevices2_try_def Let_def
        split: sum.splits prod.splits)

lemma fetchDevices3_try_failure:
  assumes "discovery_failure p = Some err"
  shows "\<exists>tr. fetchDevices3_try p st = (Some err, st\<lparr>loadingDevices := True\<rparr>, tr)"
  using assms
  by (auto simp add: discovery_failure_def fetchDevices3_try_def Let_def
        split: sum.splits prod.splits)

lemma fetchDevices2_error:
  assumes "discovery_failure p = Some (ErrorInst m)"
  shows "final_state (fetchDevices2 p st) = st\<lparr>loadingDevices := False, error := m\<rparr>"
proof -
  from fetchDevices2_try_failure [OF assms] obtain tr where
    "fetchDevices2_try p st = (Some (ErrorInst m), st\<lparr>loadingDevices := True\<rparr>, tr)"
    by blast
  then show ?thesis by (simp add: fetchDevices2_def try_catch_def)
qed

lemma fetchDevices3_error:
  assumes "discovery_failure p = Some (ErrorInst m)"
  shows "final_state (fetchDevices3 p st) = st\<lparr>loadingDevices := False, error := m\<rparr>"
proof -
  from fetchDevices3_try_failure [OF assms] obtain tr where
    "fetchDevices3_try p st = (Some (ErrorInst m), st\<lparr>loadingDevices := True\<rparr>, tr)"
    by blast
  then show ?thesis by (simp add: fetchDevices3_def try_catch_def)
qed

lemma fetchDevices2_nonerror:
  assumes "discovery_failure p = Some (NonError v)"
  shows "final_state (fetchDevices2 p st) = st\<lparr>loadingDevices := False\<rparr>"
proof -
  from fetchDevices2_try_failure [OF assms] obtain tr where
    "fetchDevices2_try p st = (Some (NonError v), st\<lparr>loadingDevices := True\<rparr>, tr)"
    by blast
  then show ?thesis by (simp add: fetchDevices2_def try_catch_def)
qed

lemma fetchDevices3_nonerror:
  assumes "discovery_failure p = Some (NonError v)"
  shows "final_state (fetchDevices3 p st) = st\<lparr>loadingDevices := False\<rparr>"
proof -
  from fetchDevices3_try_failure [OF assms] obtain tr where
    "fetchDevices3_try p st = (Some (NonError v), st\<lparr>loadingDevices := True\<rparr>, tr)"
    by blast
  then show ?thesis by (simp add: fetchDevices3_def try_catch_def)
qed



section \<open>Thrown values\<close>

lemma stopStream_error: "error (fst (snd (stopStream st))) = error st"
  by (simp add: stopStream_def split: option.splits)

lemma stopStream4_error: "error (fst (snd (stopStream4 st))) = error st"
  by (simp add: stopStream4_def split: option.splits)

lemma startStream3_rejected:
  assumes "mediaDevices_defined p" and "getUserMedia_defined p"
    and "getUserMedia p (constraints3 st) = Inl err"
  shows "\<exists>tr. startStream3 p st
           = try_catch (Some err, (fst (snd (stopStream st)))\<lparr>requestedConstraints := constraints3 st\<rparr>, tr)"
  using assms
  by (cases "stopStream st")
     (auto simp add: startStream3_def startStream3_try_def call_getUserMedia_def Let_def)

lemma startStream2_rejected:
  assumes "mediaDevices_defined p" and "getUserMedia_defined p"
    and "getUserMedia p (constraints2 st) = Inl err"
  shows "\<exists>tr. startStream2 p st = try_catch (Some err, fst (snd (stopStream st)), tr)"
  using assms
  by (cases "stopStream st")
     (auto simp add: startStream2_def startStream2_try_def call_getUserMedia_def Let_def)

lemma startStream4_rejected:
  assumes "mediaDevices_defined p" and "getUserMedia_defined p"
    and "getUserMedia p (buildConstraints st) = Inl err"
  shows "\<exists>tr. startStream4 p st = try_catch (Some err, fst (snd (stopStream4 st)), tr)"
  using assms
  by (cases "stopStream4 st")
     (auto simp add: startStream4_def startStream4_try_def call_getUserMedia_def Let_def)

text \<open>
  C10, as amended. No thrown value leaves \<open>startStream\<close> or \<open>fetchDevices\<close>: every
  run returns. The error state is set, to the message, when the thrown value is an
  \<open>Error\<close>; when the thrown value is no \<open>Error\<close> the error state stays as it was and
  the \<open>catch\<close> clause changes nothing. What the run did before the failing call
  stands: after a discovery run the state is the state before the call with the
  loading flag reset to false, and after a start the state is the one the stop of the
  prior session left (in variant 3 with the requested constraints recorded).
\<close>

theorem C10_swallowed:
  "is_Returned (startStream2 p st) \<and> is_Returned (startStream3 p st)
   \<and> is_Returned (startStream4 p st)
   \<and> is_Returned (fetchDevices2 p st) \<and> is_Returned (fetchDevices3 p st)
   \<and> (discovery_failure p = Some (NonError v) \<longrightarrow>
        final_state (fetchDevices2 p st) = st\<lparr>loadingDevices := False\<rparr>
        \<and> final_state (fetchDevices3 p st) = st\<lparr>loadingDevices := False\<rparr>)
   \<and> (discovery_failure p = Some (ErrorInst m) \<longrightarrow>
        final_state (fetchDevices2 p st) = st\<lparr>loadingDevices := False, error := m\<rparr>
        \<and> final_state (fetchDevices3 p st) = st\<lparr>loadingDevices := False, error := m\<rparr>)
   \<and> (mediaDevices_defined p \<and> getUserMedia_defined p
        \<and> getUserMedia p (constraints2 st) = Inl (NonError v) \<longrightarrow>
        final_state (startStream2 p st) = fst (snd (stopStream st))
        \<and> error (final_state (startStream2 p st)) = error st)
   \<and> (mediaDevices_defined p \<and> getUserMedia_defined p
        \<and> getUserMedia p (constraints3 st) = Inl (NonError v) \<longrightarrow>
        final_state (startStream3 p st)
          = (fst (snd (stopStream st)))\<lparr>requestedConstraints := constraints3 st\<rparr>
        \<and> error (final_state (startStream3 p st)) = error st)
   \<and> (mediaDevices_defined p \<and> getUserMedia_defined p
        \<and> getUserMedia p (buildConstraints st) = Inl (NonError v) \<longrightarrow>
        final_state (startStream4 p st) = fst (snd (stopStream4 st))
        \<and> error (final_state (startStream4 p st)) = error st)
   \<and> (mediaDevices_defined p \<and> getUserMedia_defined p
        \<and> getUserMedia p (constraints3 st) = Inl (ErrorInst m) \<longrightarrow>
        error (final_state (startStream3 p st)) = m)"
proof -
  have r: "is_Returned (startStream2 p st)" "is_Returned (startStream3 p st)"
    "is_Returned (startStream4 p st)"
    "is_Returned (fetchDevices2 p st)" "is_Returned (fetchDevices3 p st)"
    by (simp_all add: startStream2_def startStream3_def startStream4_def
          fetchDevices2_def fetchDevices3_def finally_returned try_catch_returned)
  have d: "discovery_failure p = Some (NonError v) \<longrightarrow>
        final_state (fetchDevices2 p st) = st\<lparr>loadingDevices := False\<rparr>
        \<and> final_state (fetchDevices3 p st) = st\<lparr>loadingDevices := False\<rparr>"
    using fetchDevices2_nonerror fetchDevices3_nonerror by blast
  have de: "discovery_failure p = Some (ErrorInst m) \<longrightarrow>
        final_state (fetchDevices2 p st) = st\<lparr>loadingDevices := False, error := m\<rparr>
        \<and> final_state (fetchDevices3 p st) = st\<lparr>loadingDevices := False, error := m\<rparr>"
    using fetchDevices2_error fetchDevices3_error by blast
  have s2: "mediaDevices_defined p \<and> getUserMedia_defined p
        \<and> getUserMedia p (constraints2 st) = Inl (NonError v) \<longrightarrow>
        final_state (startStream2 p st) = fst (snd (stopStream st))
        \<and> error (final_state (startStream2 p st)) = error st"
  proof
    assume a: "mediaDevices_defined p \<and> getUserMedia_defined p
        \<and> getUserMedia p (constraints2 st) = Inl (NonError v)"
    then obtain tr where
      "startStream2 p st = try_catch (Some (NonError v), fst (snd (stopStream st)), tr)"
      using startStream2_rejected [of p st "NonError v"] by blast
    then show "final_state (startStream2 p st) = fst (snd (stopStream st))
        \<and> error (final_state (startStream2 p st)) = error st"
      by (simp add: try_catch_def stopStream_error)
  qed
  have s3: "mediaDevices_defined p \<and> getUserMedia_defined p
        \<and> getUserMedia p (constraints3 st) = Inl (NonError v) \<longrightarrow>
        final_state (startStream3 p st)
          = (fst (snd (stopStream st)))\<lparr>requestedConstraints := constraints3 st\<rparr>
        \<and> error (final_state (startStream3 p st)) = error st"
  proof
    assume a: "mediaDevices_defined p \<and> getUserMedia_defined p
        \<and> getUserMedia p (constraints3 st) = Inl (NonError v)"
    then obtain tr where "startStream3 p st
        = try_catch (Some (NonError v),
            (fst (snd (stopStream st)))\<lparr>requestedConstraints := constraints3 st\<rparr>, tr)"
      using startStream3_rejected [of p st "NonError v"] by blast
    then show "final_state (startStream3 p st)
          = (fst (snd (stopStream st)))\<lparr>requestedConstraints := constraints3 st\<rparr>
        \<and> error (final_state (startStream3 p st)) = error st"
      by (simp add: try_catch_def stopStream_error)
  qed
  have s4: "mediaDevices_defined p \<and> getUserMedia_defined p
        \<and> getUserMedia p (buildConstraints st) = Inl (NonError v) \<longrightarrow>
        final_state (startStream4 p st) = fst (snd (stopStream4 st))
        \<and> error (final_state (startStream4 p st)) = error st"
  proof
    assume a: "mediaDevices_defined p \<and> getUserMedia_defined p
        \<and> getUserMedia p (buildConstraints st) = Inl (NonError v)"
    then obtain tr where
      "startStream4 p st = try_catch (Some (NonError v), fst (snd (stopStream4 st)), tr)"
      using startStream4_rejected [of p st "NonError v"] by blast
    then show "final_state (startStream4 p st) = fst (snd (stopStream4 st))
        \<and> error (final_state (startStream4 p st)) = error st"
      by (simp add: try_catch_def stopStream4_error)
  qed
  have e3: "mediaDevices_defined p \<and> getUserMedia_defined p
        \<and> getUserMedia p (constraints3 st) = Inl (ErrorInst m) \<longrightarrow>
        error (final_state (startStream3 p st)) = m"
  proof
    assume a: "mediaDevices_defined p \<and> getUserMedia_defined p
        \<and> getUserMedia p (constraints3 st) = Inl (ErrorInst m)"
    then obtain tr where "startStream3 p st
        = try_catch (Some (ErrorInst m),
            (fst (snd (stopStream st)))\<lparr>requestedConstraints := constraints3 st\<rparr>, tr)"
      using startStream3_rejected [of p st "ErrorInst m"] by blast
    then show "error (final_state (startStream3 p st)) = m"
      by (simp add: try_catch_def)
  qed
  from r d de s2 s3 s4 e3 show ?thesis by blast
qed

theorem C10_swallowed_witness:
  "discovery_failure odd_platform = Some (NonError (Str ''denied''))
   \<and> final_state (fetchDevices2 odd_platform active_state) = active_state\<lparr>loadingDevices := False\<rparr>
   \<and> getUserMedia odd_platform (constraints3 active_state) = Inl (NonError (Str ''denied''))
   \<and> is_Returned (startStream3 odd_platform active_state)
   \<and> error (final_state (startStream3 odd_platform active_state)) = []
   \<and> getUserMedia denying_platform (constraints3 active_state) = Inl (ErrorInst ''Permission denied'')
   \<and> error (final_state (startStream3 denying_platform active_state)) = ''Permission denied''"
proof -
  have h: "discovery_failure odd_platform = Some (NonError (Str ''denied''))"
    by (simp add: discovery_failure_def odd_platform_def call_getUserMedia_def)
  have g: "getUserMedia odd_platform (constraints3 active_state) = Inl (NonError (Str ''denied''))"
    by (simp add: odd_platform_def)
  have g': "getUserMedia denying_platform (constraints3 active_state)
              = Inl (ErrorInst ''Permission denied'')"
    by (simp add: denying_platform_def)
  have api: "mediaDevices_defined odd_platform \<and> getUserMedia_defined odd_platform"
    "mediaDevices_defined denying_platform \<and> getUserMedia_defined denying_platform"
    by (simp_all add: odd_platform_def denying_platform_def)
  have e: "error active_state = []"
    by (simp add: active_state_def initial_state_def)
  from C10_swallowed [of odd_platform active_state "Str ''denied''" "[]"]
       C10_swallowed [of denying_platform active_state Null "''Permission denied''"]
       h g g' api e
  show ?thesis by (simp add: stopStream_error)
qed

text \<open>
  The claim as stated fails for a start that follows an active session: the
  acquisition throws a value that is no \<open>Error\<close>, and the state after the run is not
  the state before it, since the stop of the prior session has unbound the sink.
\<close>

theorem C10_swallowed_counterexample:
  "getUserMedia odd_platform (constraints3 active_state) = Inl (NonError (Str ''denied''))
   \<and> bound_stream active_state = Some (MediaStream [camera_track])
   \<and> bound_stream (final_state (startStream3 odd_platform active_state)) = None
   \<and> final_state (startStream3 odd_platform active_state) \<noteq> active_state"
proof -
  have a: "bound_stream active_state = Some (MediaStream [camera_track])"
    by (simp add: bound_stream_def active_state_def)
  have s: "fst (snd (stopStream active_state))
             = active_state\<lparr>videoRef := Some \<lparr>srcObject = None, videoWidth = 640, videoHeight = 480\<rparr>\<rparr>"
    by (simp add: stopStream_def active_state_def)
  have g: "getUserMedia odd_platform (constraints3 active_state) = Inl (NonError (Str ''denied''))"
    by (simp add: odd_platform_def)
  have api: "mediaDevices_defined odd_platform" "getUserMedia_defined odd_platform"
    by (simp_all add: odd_platform_def)
  from startStream3_rejected [OF api g] obtain tr where
    "startStream3 odd_platform active_state
       = try_catch (Some (NonError (Str ''denied'')),
           (fst (snd (stopStream active_state)))\<lparr>requestedConstraints := constraints3 active_state\<rparr>, tr)"
    by blast
  then have b: "bound_stream (final_state (startStream3 odd_platform active_state)) = None"
    by (simp add: try_catch_def s bound_stream_def)
  from a b have "final_state (startStream3 odd_platform active_state) \<noteq> active_state"
    by auto
  with a b g show ?thesis by blast
qed

end
